theory Spec2Isabelle
  imports Complex_Main "HOL-Library.AList" "HOL-Library.Word"
begin

section \<open>configflow: values, strings and the library functions the loader calls\<close>

text \<open>
  The loader of \<^verbatim>\<open>configflow.go\<close> moves values of Go's \<^verbatim>\<open>interface{}\<close> from
  sources into the fields of a struct. The values modelled are the ones the JSON and YAML
  decoders, the environment source and Go literals produce: nil, booleans, integers,
  floats, strings, sequences and string-keyed mappings.

  A Go \<^verbatim>\<open>map[string]interface{}\<close> is an association list with the insert-or-overwrite
  of \<^const>\<open>AList.update\<close> as \<^verbatim>\<open>m[k] = v\<close>; the order of the list is the order in which
  a \<^verbatim>\<open>range\<close> loop visits the entries. A theorem about every association list is
  therefore a theorem about every iteration order Go may choose.

  Floats are not interpreted: the type of float values is the parameter \<open>'f\<close>, and the
  operations of the Go library on them come in a record, together with the other library
  functions that are taken as given (the URL parser and the two decoders).

  Strings are byte strings. The Go functions that know Unicode
  (\<^verbatim>\<open>strings.ToLower\<close>, \<^verbatim>\<open>strings.TrimSpace\<close>) are modelled on ASCII; bytes from 128
  on are left alone.
\<close>

datatype 'f gvalue =
    VNil
  | VBool bool
  | VInt int
  | VFloat 'f
  | VString string
  | VSlice "'f gvalue list"
  | VMap "(string \<times> 'f gvalue) list"

type_synonym 'f gomap = "(string \<times> 'f gvalue) list"

text \<open>The two sentinel errors of \<^verbatim>\<open>strconv\<close>.\<close>

datatype num_err = ErrSyntax | ErrRange

record 'f golib =
  ParseFloat :: "string \<Rightarrow> num_err + 'f"
    \<comment> \<open>\<^verbatim>\<open>strconv.ParseFloat(s, 64)\<close>\<close>
  FormatFloat :: "'f \<Rightarrow> string"
    \<comment> \<open>\<^verbatim>\<open>fmt.Sprintf("%v", f)\<close> on a float\<close>
  ToFloat32 :: "'f \<Rightarrow> 'f"
    \<comment> \<open>the rounding of \<^verbatim>\<open>float32(f)\<close>\<close>
  url_Parse :: "string \<Rightarrow> bool"
    \<comment> \<open>whether \<^verbatim>\<open>url.Parse\<close> returns no error\<close>
  json_Unmarshal :: "string \<Rightarrow> string + (string \<times> 'f gvalue) list"
    \<comment> \<open>\<^verbatim>\<open>json.Unmarshal\<close> into a \<^verbatim>\<open>map[string]interface{}\<close>; \<open>Inl\<close> the error's text\<close>
  yaml_Unmarshal :: "string \<Rightarrow> string + (string \<times> 'f gvalue) list"
    \<comment> \<open>\<^verbatim>\<open>yaml.Unmarshal\<close>, likewise\<close>

subsection \<open>\<^verbatim>\<open>strings\<close>\<close>

definition lower_char :: "char \<Rightarrow> char" where
  "lower_char c =
     (let n = (of_char c :: nat)
      in if 65 \<le> n \<and> n \<le> 90 then char_of (n + 32) else c)"

definition ToLower :: "string \<Rightarrow> string" where
  "ToLower s = map lower_char s"

definition is_space :: "char \<Rightarrow> bool" where
  "is_space c = (let n = (of_char c :: nat) in n = 32 \<or> (9 \<le> n \<and> n \<le> 13))"

definition TrimSpace :: "string \<Rightarrow> string" where
  "TrimSpace s = rev (dropWhile is_space (rev (dropWhile is_space s)))"

text \<open>
  \<^verbatim>\<open>strings.Split(s, sep)\<close> for a separator of one byte: one piece more than there are
  separators, so never an empty list.
\<close>

fun Split :: "string \<Rightarrow> char \<Rightarrow> string list" where
  "Split [] sep = [[]]"
| "Split (c # cs) sep =
     (if c = sep then [] # Split cs sep
      else (case Split cs sep of
              p # ps \<Rightarrow> (c # p) # ps
            | [] \<Rightarrow> [[c]]))"

text \<open>\<^verbatim>\<open>strings.SplitN(s, sep, 2)\<close>: cut at the first separator, when there is one.\<close>

definition SplitN2 :: "string \<Rightarrow> char \<Rightarrow> string list" where
  "SplitN2 s sep =
     (if sep \<in> set s
      then [takeWhile (\<lambda>c. c \<noteq> sep) s, tl (dropWhile (\<lambda>c. c \<noteq> sep) s)]
      else [s])"

fun join :: "string \<Rightarrow> string list \<Rightarrow> string" where
  "join sep [] = []"
| "join sep [x] = x"
| "join sep (x # y # ys) = x @ sep @ join sep (y # ys)"

subsection \<open>\<^verbatim>\<open>strconv\<close>\<close>

definition ParseBool :: "string \<Rightarrow> num_err + bool" where
  "ParseBool s =
     (if s \<in> set [''1'', ''t'', ''T'', ''TRUE'', ''true'', ''True''] then Inr True
      else if s \<in> set [''0'', ''f'', ''F'', ''FALSE'', ''false'', ''False''] then Inr False
      else Inl ErrSyntax)"

definition is_digit :: "char \<Rightarrow> bool" where
  "is_digit c = (let n = (of_char c :: nat) in 48 \<le> n \<and> n \<le> 57)"

definition digit_val :: "char \<Rightarrow> nat" where
  "digit_val c = of_char c - 48"

text \<open>
  The loop of \<^verbatim>\<open>strconv.ParseUint(s, 10, 64)\<close>: it reads from the left and stops at
  the first byte that is no digit (a syntax error) or at the first digit that takes the
  number past \<open>2^64 - 1\<close> (a range error), whichever comes first.
\<close>

fun ParseUint_loop :: "string \<Rightarrow> nat \<Rightarrow> num_err + nat" where
  "ParseUint_loop [] n = Inr n"
| "ParseUint_loop (c # cs) n =
     (if \<not> is_digit c then Inl ErrSyntax
      else if n * 10 + digit_val c > 2 ^ 64 - 1 then Inl ErrRange
      else ParseUint_loop cs (n * 10 + digit_val c))"

definition ParseUint :: "string \<Rightarrow> num_err + nat" where
  "ParseUint s = (if s = [] then Inl ErrSyntax else ParseUint_loop s 0)"

text \<open>
  \<^verbatim>\<open>strconv.ParseInt(s, 10, 64)\<close>: an optional sign, then \<^verbatim>\<open>ParseUint\<close>, then the range
  of a signed 64-bit integer.
\<close>

definition ParseInt :: "string \<Rightarrow> num_err + int" where
  "ParseInt s =
     (case s of
        [] \<Rightarrow> Inl ErrSyntax
      | c # cs \<Rightarrow>
          (let neg = (c = CHR ''-'');
               body = (if c = CHR ''+'' \<or> c = CHR ''-'' then cs else s)
           in case ParseUint body of
                Inl e \<Rightarrow> Inl e
              | Inr un \<Rightarrow>
                  if \<not> neg \<and> un \<ge> 2 ^ 63 then Inl ErrRange
                  else if neg \<and> un > 2 ^ 63 then Inl ErrRange
                  else Inr (if neg then - int un else int un)))"

text \<open>
  \<^verbatim>\<open>strconv.Atoi\<close> is \<^verbatim>\<open>ParseInt(s, 10, 0)\<close> with a fast path that accepts the same
  strings; Go's \<^verbatim>\<open>int\<close> is taken to be 64 bits wide.
\<close>

definition Atoi :: "string \<Rightarrow> num_err + int" where
  "Atoi s = ParseInt s"

subsection \<open>\<^verbatim>\<open>fmt\<close>\<close>

function digits_of :: "nat \<Rightarrow> string" where
  "digits_of n =
     (if n < 10 then [char_of (48 + n)]
      else digits_of (n div 10) @ [char_of (48 + n mod 10)])"
  by pat_completeness auto
termination
  by (relation "measure (\<lambda>n. n)") auto

declare digits_of.simps [simp del]

definition Itoa :: "int \<Rightarrow> string" where
  "Itoa i = (if i < 0 then CHR ''-'' # digits_of (nat (- i)) else digits_of (nat i))"

text \<open>Go's order on strings, byte by byte; \<^verbatim>\<open>fmt\<close> prints a map with its keys sorted.\<close>

fun str_less :: "string \<Rightarrow> string \<Rightarrow> bool" where
  "str_less [] [] = False"
| "str_less [] (y # ys) = True"
| "str_less (x # xs) [] = False"
| "str_less (x # xs) (y # ys) =
     ((of_char x :: nat) < of_char y \<or> (x = y \<and> str_less xs ys))"

fun insert_by_key :: "string \<times> string \<Rightarrow> (string \<times> string) list \<Rightarrow> (string \<times> string) list" where
  "insert_by_key e [] = [e]"
| "insert_by_key e (x # xs) =
     (if str_less (fst x) (fst e) then x # insert_by_key e xs else e # x # xs)"

definition sort_by_key :: "(string \<times> string) list \<Rightarrow> (string \<times> string) list" where
  "sort_by_key es = foldr insert_by_key es []"

text \<open>\<^verbatim>\<open>fmt.Sprintf("%v", value)\<close>.\<close>

fun Sprint :: "'f golib \<Rightarrow> 'f gvalue \<Rightarrow> string" where
  "Sprint ops VNil = ''<nil>''"
| "Sprint ops (VBool b) = (if b then ''true'' else ''false'')"
| "Sprint ops (VInt i) = Itoa i"
| "Sprint ops (VFloat f) = FormatFloat ops f"
| "Sprint ops (VString s) = s"
| "Sprint ops (VSlice xs) = ''['' @ join '' '' (map (Sprint ops) xs) @ '']''"
| "Sprint ops (VMap m) =
     ''map['' @
     join '' '' (map (\<lambda>(k, s). k @ '':'' @ s)
                  (sort_by_key (map (\<lambda>(k, v). (k, Sprint ops v)) m))) @
     '']''"

section \<open>Helper functions of \<^verbatim>\<open>configflow.go\<close>\<close>

text \<open>
  \<^verbatim>\<open>parseValue\<close>: boolean, then 64-bit integer, then float, then the string itself.
\<close>

definition parseValue :: "'f golib \<Rightarrow> string \<Rightarrow> 'f gvalue" where
  "parseValue ops s =
     (case ParseBool s of
        Inr b \<Rightarrow> VBool b
      | Inl _ \<Rightarrow>
          (case ParseInt s of
             Inr i \<Rightarrow> VInt i
           | Inl _ \<Rightarrow>
               (case ParseFloat ops s of
                  Inr f \<Rightarrow> VFloat f
                | Inl _ \<Rightarrow> VString s)))"

text \<open>
  \<^verbatim>\<open>mergeMaps(dst, src)\<close>: every entry of \<open>src\<close>, in the order the loop visits them, is
  written into \<open>dst\<close>.
\<close>

fun mergeMaps :: "'f gomap \<Rightarrow> 'f gomap \<Rightarrow> 'f gomap" where
  "mergeMaps dst [] = dst"
| "mergeMaps dst ((k, v) # src) = mergeMaps (AList.update k v dst) src"

text \<open>
  \<^verbatim>\<open>flattenMap(m, prefix)\<close>. The key of an entry is \<^verbatim>\<open>prefix + "." + k\<close> when the prefix
  is not the empty string and \<open>k\<close> otherwise. \<open>flattenMap_loop\<close> is the \<^verbatim>\<open>for\<close> loop with
  \<^verbatim>\<open>result\<close> as its state; the inner loop that copies the flattened nested map into
  \<^verbatim>\<open>result\<close> is the loop of \<^const>\<open>mergeMaps\<close>.
\<close>

fun is_VMap :: "'f gvalue \<Rightarrow> bool" where
  "is_VMap (VMap nested) = True"
| "is_VMap v = False"

definition join_key :: "string \<Rightarrow> string \<Rightarrow> string" where
  "join_key prefix k = (if prefix \<noteq> [] then prefix @ ''.'' @ k else k)"

function flattenMap_loop :: "'f gomap \<Rightarrow> string \<Rightarrow> 'f gomap \<Rightarrow> 'f gomap" where
  "flattenMap_loop [] prefix result = result"
| "flattenMap_loop ((k, v) # m) prefix result =
     (let key = join_key prefix k
      in case v of
           VMap nested \<Rightarrow>
             flattenMap_loop m prefix (mergeMaps result (flattenMap_loop nested key []))
         | _ \<Rightarrow> flattenMap_loop m prefix (AList.update key v result))"
  by pat_completeness auto
termination
  by (relation "measure (\<lambda>(m, p, r). size_list (size_prod (\<lambda>_. 0) size) m)") auto

definition flattenMap :: "'f gomap \<Rightarrow> string \<Rightarrow> 'f gomap" where
  "flattenMap m prefix = flattenMap_loop m prefix []"

section \<open>Errors\<close>

text \<open>
  \<open>ErrorString\<close> is an error made by \<^verbatim>\<open>fmt.Errorf\<close> without \<^verbatim>\<open>%w\<close> (or any error known
  only by its text), \<open>NumError\<close> the \<^verbatim>\<open>*strconv.NumError\<close> of a failed parse (function,
  input, cause), \<open>WrapError p e\<close> the result of \<^verbatim>\<open>fmt.Errorf(p + "%w", e)\<close>, and
  \<open>ValidationError\<close> the struct of that name (Field, Value, Rule, Message).
\<close>

datatype 'f error =
    ErrorString string
  | NumError string string num_err
  | WrapError string "'f error"
  | ValidationError string "'f gvalue" string string

section \<open>Validators\<close>

text \<open>
  A \<^verbatim>\<open>ValidatorFunc\<close> returns an error or nil. \<^verbatim>\<open>validateField\<close> reads nothing of the
  error but its text (\<^verbatim>\<open>err.Error()\<close>), so a validator is modelled as returning that
  text, or \<open>None\<close> for nil.
\<close>

type_synonym 'f ValidatorFunc = "'f gvalue \<Rightarrow> string \<Rightarrow> string option"

definition required_validator :: "'f golib \<Rightarrow> 'f ValidatorFunc" where
  "required_validator lib value param =
     (if value = VNil \<or> Sprint lib value = [] then Some ''field is required'' else None)"

definition url_validator :: "'f golib \<Rightarrow> 'f ValidatorFunc" where
  "url_validator lib value param =
     (if \<not> url_Parse lib (Sprint lib value) then Some ''invalid URL format'' else None)"

definition range_validator :: "'f golib \<Rightarrow> 'f ValidatorFunc" where
  "range_validator lib value param =
     (case Split param CHR '','' of
        [p0, p1] \<Rightarrow>
          (case (Atoi (TrimSpace p0), Atoi (TrimSpace p1)) of
             (Inr minv, Inr maxv) \<Rightarrow>
               (case Atoi (Sprint lib value) of
                  Inl _ \<Rightarrow> Some ''value must be an integer for range validation''
                | Inr val \<Rightarrow>
                    if val < minv \<or> val > maxv
                    then Some (''value must be between '' @ Itoa minv @ '' and '' @ Itoa maxv)
                    else None)
           | _ \<Rightarrow> Some ''range parameters must be integers'')
      | _ \<Rightarrow> Some ''range validator requires min,max parameters'')"

text \<open>
  The regular expression of the email validator,
  \<^verbatim>\<open>^[a-zA-Z0-9._%+-]+@[a-zA-Z0-9.-]+\.[a-zA-Z]{2,}$\<close>. Neither character class holds
  \<^verbatim>\<open>@\<close>, so the local part ends at the first \<^verbatim>\<open>@\<close>; the last class holds no dot, so
  the final dot of the pattern is the last dot of the string.
\<close>

definition is_letter :: "char \<Rightarrow> bool" where
  "is_letter c =
     (let n = (of_char c :: nat) in (65 \<le> n \<and> n \<le> 90) \<or> (97 \<le> n \<and> n \<le> 122))"

definition emailRegex_MatchString :: "string \<Rightarrow> bool" where
  "emailRegex_MatchString s =
     (let local = takeWhile (\<lambda>c. c \<noteq> CHR ''@'') s;
          rest = dropWhile (\<lambda>c. c \<noteq> CHR ''@'') s;
          dom = tl rest;
          tld = rev (takeWhile (\<lambda>c. c \<noteq> CHR ''.'') (rev dom));
          host = rev (tl (dropWhile (\<lambda>c. c \<noteq> CHR ''.'') (rev dom)))
      in local \<noteq> [] \<and>
         list_all (\<lambda>c. is_letter c \<or> is_digit c \<or> c \<in> set ''._%+-'') local \<and>
         rest \<noteq> [] \<and> CHR ''.'' \<in> set dom \<and> host \<noteq> [] \<and>
         list_all (\<lambda>c. is_letter c \<or> is_digit c \<or> c \<in> set ''.-'') host \<and>
         2 \<le> length tld \<and> list_all is_letter tld)"

definition email_validator :: "'f golib \<Rightarrow> 'f ValidatorFunc" where
  "email_validator lib value param =
     (if \<not> emailRegex_MatchString (Sprint lib value) then Some ''invalid email format''
      else None)"

definition min_validator :: "'f golib \<Rightarrow> 'f ValidatorFunc" where
  "min_validator lib value param =
     (case Atoi param of
        Inl _ \<Rightarrow> Some ''min parameter must be an integer''
      | Inr minVal \<Rightarrow>
          (case Atoi (Sprint lib value) of
             Inl _ \<Rightarrow> Some ''value must be an integer for min validation''
           | Inr val \<Rightarrow>
               if val < minVal then Some (''value must be at least '' @ Itoa minVal)
               else None))"

definition max_validator :: "'f golib \<Rightarrow> 'f ValidatorFunc" where
  "max_validator lib value param =
     (case Atoi param of
        Inl _ \<Rightarrow> Some ''max parameter must be an integer''
      | Inr maxVal \<Rightarrow>
          (case Atoi (Sprint lib value) of
             Inl _ \<Rightarrow> Some ''value must be an integer for max validation''
           | Inr val \<Rightarrow>
               if val > maxVal then Some (''value must be at most '' @ Itoa maxVal)
               else None))"

definition getBuiltinValidators :: "'f golib \<Rightarrow> (string \<rightharpoonup> 'f ValidatorFunc)" where
  "getBuiltinValidators lib =
     map_of [(''required'', required_validator lib),
             (''url'', url_validator lib),
             (''range'', range_validator lib),
             (''email'', email_validator lib),
             (''min'', min_validator lib),
             (''max'', max_validator lib)]"

section \<open>Sources\<close>

text \<open>
  What a source reads from outside the program: the process environment
  (\<^verbatim>\<open>os.Environ()\<close>, a list of \<^verbatim>\<open>KEY=value\<close> strings) and the file system
  (\<^verbatim>\<open>os.ReadFile\<close>, which returns the content, fails because the file does not exist, or
  fails otherwise).
\<close>

datatype read_result = ReadOk string | ReadNotExist | ReadFailed string

record world =
  Environ :: "string list"
  ReadFile :: "string \<Rightarrow> read_result"

text \<open>
  The three implementations of the interface \<^verbatim>\<open>Source\<close>. The field \<^verbatim>\<open>sources\<close> of a
  Loader is unexported and only \<^verbatim>\<open>AddFile\<close>, \<^verbatim>\<open>AddEnv\<close> and \<^verbatim>\<open>AddMap\<close> append to it.
\<close>

datatype 'f source = FileSource string | EnvSource | MapSource "'f gomap"

fun Priority :: "'f source \<Rightarrow> int" where
  "Priority (FileSource path) = 1"
| "Priority EnvSource = 2"
| "Priority (MapSource d) = 0"

text \<open>\<^verbatim>\<open>strings.ToLower(fs.Path[strings.LastIndex(fs.Path, ".")+1:])\<close>\<close>

definition file_ext :: "string \<Rightarrow> string" where
  "file_ext path = ToLower (rev (takeWhile (\<lambda>c. c \<noteq> CHR ''.'') (rev path)))"

definition FileSource_Load :: "'f golib \<Rightarrow> world \<Rightarrow> string \<Rightarrow> 'f error + 'f gomap" where
  "FileSource_Load lib w path =
     (case ReadFile w path of
        ReadNotExist \<Rightarrow> Inr []
      | ReadFailed e \<Rightarrow> Inl (ErrorString e)
      | ReadOk data \<Rightarrow>
          (let ext = file_ext path;
               parsed =
                 (if ext = ''json'' then Inr (json_Unmarshal lib data)
                  else if ext = ''yaml'' \<or> ext = ''yml'' then Inr (yaml_Unmarshal lib data)
                  else Inl (ErrorString (''unsupported file format: '' @ ext)))
           in case parsed of
                Inl err \<Rightarrow> Inl err
              | Inr (Inl e) \<Rightarrow>
                  Inl (WrapError (''failed to parse '' @ path @ '': '') (ErrorString e))
              | Inr (Inr result) \<Rightarrow> Inr (flattenMap result [])))"

fun EnvSource_loop :: "'f golib \<Rightarrow> string list \<Rightarrow> 'f gomap \<Rightarrow> 'f gomap" where
  "EnvSource_loop lib [] result = result"
| "EnvSource_loop lib (env # envs) result =
     (case SplitN2 env CHR ''='' of
        [p0, p1] \<Rightarrow>
          (let key = ToLower p0;
               value = p1;
               parsed = parseValue lib value
           in EnvSource_loop lib envs
                (if parsed \<noteq> VNil then AList.update key parsed result
                 else AList.update key (VString value) result))
      | _ \<Rightarrow> EnvSource_loop lib envs result)"

definition EnvSource_Load :: "'f golib \<Rightarrow> world \<Rightarrow> 'f error + 'f gomap" where
  "EnvSource_Load lib w = Inr (EnvSource_loop lib (Environ w) [])"

definition MapSource_Load :: "'f gomap \<Rightarrow> 'f error + 'f gomap" where
  "MapSource_Load Data = Inr (flattenMap Data [])"

fun source_Load :: "'f golib \<Rightarrow> world \<Rightarrow> 'f source \<Rightarrow> 'f error + 'f gomap" where
  "source_Load lib w (FileSource path) = FileSource_Load lib w path"
| "source_Load lib w EnvSource = EnvSource_Load lib w"
| "source_Load lib w (MapSource Data) = MapSource_Load Data"

section \<open>The Loader\<close>

record 'f Loader =
  sources :: "'f source list"
  validators :: "string \<rightharpoonup> 'f ValidatorFunc"
  strict :: bool

definition New :: "'f golib \<Rightarrow> 'f Loader" where
  "New lib = \<lparr>sources = [], validators = getBuiltinValidators lib, strict = False\<rparr>"

definition AddFile :: "string \<Rightarrow> 'f Loader \<Rightarrow> 'f Loader" where
  "AddFile path l = l\<lparr>sources := sources l @ [FileSource path]\<rparr>"

definition AddEnv :: "'f Loader \<Rightarrow> 'f Loader" where
  "AddEnv l = l\<lparr>sources := sources l @ [EnvSource]\<rparr>"

definition AddMap :: "'f gomap \<Rightarrow> 'f Loader \<Rightarrow> 'f Loader" where
  "AddMap data l = l\<lparr>sources := sources l @ [MapSource data]\<rparr>"

definition EnableValidation :: "'f Loader \<Rightarrow> 'f Loader" where
  "EnableValidation l = l"

definition Strict :: "'f Loader \<Rightarrow> 'f Loader" where
  "Strict l = l\<lparr>strict := True\<rparr>"

definition AddValidator :: "string \<Rightarrow> 'f ValidatorFunc \<Rightarrow> 'f Loader \<Rightarrow> 'f Loader" where
  "AddValidator name validator l = l\<lparr>validators := (validators l)(name \<mapsto> validator)\<rparr>"

subsection \<open>\<^verbatim>\<open>validateField\<close>\<close>

text \<open>
  The loop over \<^verbatim>\<open>strings.Split(rules, ",")\<close>. A clause whose name has a validator
  that returns an error ends the loop with a \<open>ValidationError\<close>; any other clause goes on
  to the next one.
\<close>

fun validateField_loop ::
  "(string \<rightharpoonup> 'f ValidatorFunc) \<Rightarrow> string \<Rightarrow> 'f gvalue \<Rightarrow> string list \<Rightarrow> 'f error option" where
  "validateField_loop vs fieldName value [] = None"
| "validateField_loop vs fieldName value (r # rs) =
     (let rule = TrimSpace r;
          parts = SplitN2 rule CHR '':'';
          ruleName = (case parts of [] \<Rightarrow> [] | p0 # _ \<Rightarrow> p0);
          param = (case parts of p0 # p1 # _ \<Rightarrow> p1 | _ \<Rightarrow> [])
      in case vs ruleName of
           Some validator \<Rightarrow>
             (case validator value param of
                Some msg \<Rightarrow> Some (ValidationError fieldName value rule msg)
              | None \<Rightarrow> validateField_loop vs fieldName value rs)
         | None \<Rightarrow> validateField_loop vs fieldName value rs)"

definition validateField :: "'f Loader \<Rightarrow> string \<Rightarrow> 'f gvalue \<Rightarrow> string \<Rightarrow> 'f error option" where
  "validateField l fieldName value rules =
     validateField_loop (validators l) fieldName value (Split rules CHR '','')"

subsection \<open>The target struct\<close>

text \<open>
  A field of the target as \<^verbatim>\<open>reflect\<close> shows it: its name, the four tag values read by
  \<^verbatim>\<open>getFieldConfig\<close>, whether it can be set, its kind and its present value.
\<close>

datatype Kind =
    KInvalid | KBool | KInt | KInt8 | KInt16 | KInt32 | KInt64
  | KUint | KUint8 | KUint16 | KUint32 | KUint64 | KUintptr
  | KFloat32 | KFloat64 | KComplex64 | KComplex128
  | KArray | KChan | KFunc | KInterface | KMap | KPointer | KSlice | KString | KStruct
  | KUnsafePointer

datatype 'f fvalue = BoolVal bool | IntVal int | FloatVal 'f | StringVal string | OtherVal

record 'f field =
  Name :: string
  tag_cfg :: string
  tag_env :: string
  tag_validate :: string
  tag_default :: string
  CanSet :: bool
  Kind :: Kind
  Val :: "'f fvalue"

record fieldConfig =
  cfgKey :: string
  envKey :: string
  validate :: string
  defaultValue :: string

definition getFieldConfig :: "'f field \<Rightarrow> fieldConfig" where
  "getFieldConfig field =
     \<lparr>cfgKey = tag_cfg field, envKey = tag_env field,
      validate = tag_validate field, defaultValue = tag_default field\<rparr>"

definition findValue :: "'f gomap \<Rightarrow> fieldConfig \<Rightarrow> 'f gvalue" where
  "findValue data cfg =
     (case (if envKey cfg \<noteq> [] then map_of data (ToLower (envKey cfg)) else None) of
        Some value \<Rightarrow> value
      | None \<Rightarrow>
          (case (if cfgKey cfg \<noteq> [] then map_of data (cfgKey cfg) else None) of
             Some value \<Rightarrow> value
           | None \<Rightarrow> VNil))"

text \<open>
  \<^verbatim>\<open>reflect.Value.SetInt\<close> stores the 64-bit argument in the field's own width and drops
  the bits that do not fit; \<^verbatim>\<open>SetFloat\<close> on a \<^verbatim>\<open>float32\<close> field rounds.
\<close>

definition SetInt :: "Kind \<Rightarrow> int \<Rightarrow> int" where
  "SetInt k i =
     (if k = KInt8 then sint (word_of_int i :: 8 word)
      else if k = KInt16 then sint (word_of_int i :: 16 word)
      else if k = KInt32 then sint (word_of_int i :: 32 word)
      else sint (word_of_int i :: 64 word))"

definition setValue :: "'f golib \<Rightarrow> 'f field \<Rightarrow> 'f gvalue \<Rightarrow> 'f error + 'f field" where
  "setValue lib field value =
     (let k = Kind field; s = Sprint lib value
      in if k = KString then Inr (field\<lparr>Val := StringVal s\<rparr>)
         else if k \<in> {KInt, KInt8, KInt16, KInt32, KInt64} then
           (case ParseInt s of
              Inr i \<Rightarrow> Inr (field\<lparr>Val := IntVal (SetInt k i)\<rparr>)
            | Inl e \<Rightarrow> Inl (NumError ''ParseInt'' s e))
         else if k = KBool then
           (case ParseBool s of
              Inr b \<Rightarrow> Inr (field\<lparr>Val := BoolVal b\<rparr>)
            | Inl e \<Rightarrow> Inl (NumError ''ParseBool'' s e))
         else if k \<in> {KFloat32, KFloat64} then
           (case ParseFloat lib s of
              Inr f \<Rightarrow> Inr (field\<lparr>Val := FloatVal (if k = KFloat32 then ToFloat32 lib f else f)\<rparr>)
            | Inl e \<Rightarrow> Inl (NumError ''ParseFloat'' s e))
         else Inr field)"

subsection \<open>\<^verbatim>\<open>applyToStruct\<close> and \<^verbatim>\<open>Load\<close>\<close>

text \<open>
  One pass of the loop body of \<^verbatim>\<open>applyToStruct\<close> for one field: \<open>Inl err\<close> when the
  body returns \<open>err\<close> (nothing has been stored in the field then, since \<^verbatim>\<open>setValue\<close>
  parses before it stores), \<open>Inr field'\<close> when the loop goes on, with the field as the
  body leaves it.
\<close>

definition applyField :: "'f Loader \<Rightarrow> 'f golib \<Rightarrow> 'f gomap \<Rightarrow> 'f field \<Rightarrow> 'f error + 'f field" where
  "applyField l lib data field =
     (if \<not> CanSet field then Inr field
      else
        (let cfg = getFieldConfig field;
             value = findValue data cfg
         in if value \<noteq> VNil then
              (case (if validate cfg \<noteq> [] then validateField l (Name field) value (validate cfg)
                     else None) of
                 Some err \<Rightarrow> Inl err
               | None \<Rightarrow>
                   (case setValue lib field value of
                      Inl err \<Rightarrow> Inl (WrapError (''failed to set field '' @ Name field @ '': '') err)
                    | Inr field' \<Rightarrow> Inr field'))
            else if defaultValue cfg \<noteq> [] then
              (let parsed = parseValue lib (defaultValue cfg)
               in case setValue lib field parsed of
                    Inl err \<Rightarrow>
                      Inl (WrapError (''failed to set default for field '' @ Name field @ '': '') err)
                  | Inr field' \<Rightarrow> Inr field')
            else Inr field))"

text \<open>
  The loop over the fields. The struct is changed in place through the pointer, so the
  result is the list of fields as the loop leaves them together with the error returned
  (\<open>None\<close> for nil).
\<close>

fun applyToStruct_loop ::
  "'f Loader \<Rightarrow> 'f golib \<Rightarrow> 'f gomap \<Rightarrow> 'f field list \<Rightarrow> 'f field list \<times> 'f error option" where
  "applyToStruct_loop l lib data [] = ([], None)"
| "applyToStruct_loop l lib data (field # rest) =
     (case applyField l lib data field of
        Inl err \<Rightarrow> (field # rest, Some err)
      | Inr field' \<Rightarrow>
          (case applyToStruct_loop l lib data rest of
             (rest', err) \<Rightarrow> (field' # rest', err)))"

text \<open>
  The argument of \<^verbatim>\<open>Load\<close>, by what \<^verbatim>\<open>reflect\<close> says of it: not a pointer at all (this
  includes the nil interface), a nil pointer (whose \<^verbatim>\<open>Elem()\<close> has kind Invalid), a
  pointer to something that is no struct, or a pointer to a struct with its fields.
\<close>

datatype 'f config =
    NotPointer
  | NilPointer
  | PointerToNonStruct
  | PointerToStruct "'f field list"

definition applyToStruct ::
  "'f Loader \<Rightarrow> 'f golib \<Rightarrow> 'f config \<Rightarrow> 'f gomap \<Rightarrow> 'f config \<times> 'f error option" where
  "applyToStruct l lib config data =
     (case config of
        PointerToStruct flds \<Rightarrow>
          (case applyToStruct_loop l lib data flds of
             (flds', err) \<Rightarrow> (PointerToStruct flds', err))
      | _ \<Rightarrow> (config, Some (ErrorString ''config must be a pointer to struct'')))"

text \<open>The loop of \<^verbatim>\<open>Load\<close> over the sources, with \<^verbatim>\<open>merged\<close> as its state.\<close>

fun Load_loop :: "'f golib \<Rightarrow> world \<Rightarrow> 'f source list \<Rightarrow> 'f gomap \<Rightarrow> 'f error + 'f gomap" where
  "Load_loop lib w [] merged = Inr merged"
| "Load_loop lib w (source # rest) merged =
     (case source_Load lib w source of
        Inl err \<Rightarrow> Inl (WrapError ''failed to load from source: '' err)
      | Inr data \<Rightarrow> Load_loop lib w rest (mergeMaps merged data))"

definition Load :: "'f Loader \<Rightarrow> 'f golib \<Rightarrow> world \<Rightarrow> 'f config \<Rightarrow> 'f config \<times> 'f error option" where
  "Load l lib w config =
     (case Load_loop lib w (sources l) [] of
        Inl err \<Rightarrow> (config, Some err)
      | Inr merged \<Rightarrow> applyToStruct l lib config merged)"

section \<open>What the specification says of flattening\<close>

text \<open>
  These definitions follow the words of the specification, to be compared with
  \<^const>\<open>flattenMap\<close>: the root-to-leaf paths of a nested mapping, a leaf being a value
  that is no mapping, each with its leaf; a path joined with dots, behind the prefix when
  one is given; and the flat list of joined paths and leaves.
\<close>

function leaf_paths :: "'f gomap \<Rightarrow> (string list \<times> 'f gvalue) list" where
  "leaf_paths [] = []"
| "leaf_paths ((k, v) # m) =
     (case v of
        VMap nested \<Rightarrow> map (\<lambda>(p, x). (k # p, x)) (leaf_paths nested)
      | _ \<Rightarrow> [([k], v)]) @ leaf_paths m"
  by pat_completeness auto
termination
  by (relation "measure (\<lambda>m. size_list (size_prod (\<lambda>_. 0) size) m)") auto

definition dot_path :: "string \<Rightarrow> string list \<Rightarrow> string" where
  "dot_path prefix path =
     (if prefix = [] then join ''.'' path else prefix @ ''.'' @ join ''.'' path)"

definition flat_spec :: "string \<Rightarrow> 'f gomap \<Rightarrow> 'f gomap" where
  "flat_spec prefix m = map (\<lambda>(path, v). (dot_path prefix path, v)) (leaf_paths m)"

text \<open>
  The leaves under the keys that the code builds for them, in the order in which the
  loops of \<^const>\<open>flattenMap_loop\<close> reach them.
\<close>

function leaves :: "'f gomap \<Rightarrow> string \<Rightarrow> 'f gomap" where
  "leaves [] prefix = []"
| "leaves ((k, v) # m) prefix =
     (case v of
        VMap nested \<Rightarrow> leaves nested (join_key prefix k)
      | _ \<Rightarrow> [(join_key prefix k, v)]) @ leaves m prefix"
  by pat_completeness auto
termination
  by (relation "measure (\<lambda>(m, p). size_list (size_prod (\<lambda>_. 0) size) m)") auto

section \<open>An instance for the examples\<close>

text \<open>
  The examples need a library and a world to run in. This library knows one float
  literal; this world has two environment variables and no files.
\<close>

definition example_lib :: "real golib" where
  "example_lib =
     \<lparr>ParseFloat = (\<lambda>s. if s = ''3.14'' then Inr 3.14 else Inl ErrSyntax),
      FormatFloat = (\<lambda>f. ''3.14''),
      ToFloat32 = (\<lambda>f. f),
      url_Parse = (\<lambda>s. True),
      json_Unmarshal = (\<lambda>s. Inl ''unexpected end of JSON input''),
      yaml_Unmarshal = (\<lambda>s. Inr [])\<rparr>"

definition example_world :: world where
  "example_world =
     \<lparr>Environ = [''APP_PORT=8080'', ''HOME=/root''], ReadFile = (\<lambda>path. ReadNotExist)\<rparr>"

text \<open>
  Three fields of a target struct, as in the examples of the repository, and a world
  in which every file can be read.
\<close>

definition example_Port :: "real field" where
  "example_Port =
     \<lparr>Name = ''Port'', tag_cfg = ''port'', tag_env = [], tag_validate = [],
      tag_default = ''8080'', CanSet = True, Kind = KInt, Val = IntVal 0\<rparr>"

definition example_Email :: "real field" where
  "example_Email =
     \<lparr>Name = ''Email'', tag_cfg = ''email'', tag_env = [], tag_validate = ''required,email'',
      tag_default = [], CanSet = True, Kind = KString, Val = StringVal []\<rparr>"

definition example_Debug :: "real field" where
  "example_Debug =
     \<lparr>Name = ''Debug'', tag_cfg = ''debug'', tag_env = ''DEBUG'', tag_validate = [],
      tag_default = ''true'', CanSet = True, Kind = KBool, Val = BoolVal False\<rparr>"

definition toml_world :: world where
  "toml_world = \<lparr>Environ = [], ReadFile = (\<lambda>path. ReadOk ''port = 3000'')\<rparr>"

section \<open>Association lists as Go maps\<close>

lemma map_of_mergeMaps:
  "map_of (mergeMaps dst src) = map_of dst ++ map_of (rev src)"
  by (induction dst src rule: mergeMaps.induct) (auto simp: AList.update_conv' map_add_def fun_eq_iff split: option.splits)

lemma keys_mergeMaps:
  "fst ` set (mergeMaps dst src) = fst ` set dst \<union> fst ` set src"
  by (induction dst src rule: mergeMaps.induct) (auto simp: AList.dom_update)

lemma distinct_mergeMaps:
  "distinct (map fst dst) \<Longrightarrow> distinct (map fst (mergeMaps dst src))"
  by (induction dst src rule: mergeMaps.induct) (auto simp: AList.distinct_update)

lemma map_of_rev_distinct:
  "distinct (map fst xs) \<Longrightarrow> map_of (rev xs) = map_of xs"
  by (subst map_of_inject_set) (simp_all add: rev_map[symmetric])

lemma flattenMap_loop_VMap:
  "flattenMap_loop ((k, VMap nested) # m) prefix result =
     flattenMap_loop m prefix (mergeMaps result (flattenMap_loop nested (join_key prefix k) []))"
  by simp

lemma flattenMap_loop_leaf:
  "\<not> is_VMap v \<Longrightarrow>
   flattenMap_loop ((k, v) # m) prefix result =
     flattenMap_loop m prefix (AList.update (join_key prefix k) v result)"
  by (cases v) simp_all

lemma flattenMap_loop_induct [case_names Nil Nested Leaf]:
  assumes "\<And>prefix result. P [] prefix result"
    and "\<And>k nested m prefix result.
           P nested (join_key prefix k) [] \<Longrightarrow>
           P m prefix (mergeMaps result (flattenMap_loop nested (join_key prefix k) [])) \<Longrightarrow>
           P ((k, VMap nested) # m) prefix result"
    and "\<And>k v m prefix result.
           \<not> is_VMap v \<Longrightarrow>
           P m prefix (AList.update (join_key prefix k) v result) \<Longrightarrow>
           P ((k, v) # m) prefix result"
  shows "P m prefix result"
proof (induction m prefix result rule: flattenMap_loop.induct)
  case (1 prefix result)
  show ?case by (rule assms(1))
next
  case (2 k v m prefix result)
  show ?case
  proof (cases v)
    case VNil
    show ?thesis using assms(3)[of v m prefix k result] "2.IH"(1)[OF refl VNil] VNil by simp
  next
    case (VBool b)
    show ?thesis using assms(3)[of v m prefix k result] "2.IH"(2)[OF refl VBool] VBool by simp
  next
    case (VInt i)
    show ?thesis using assms(3)[of v m prefix k result] "2.IH"(3)[OF refl VInt] VInt by simp
  next
    case (VFloat f)
    show ?thesis using assms(3)[of v m prefix k result] "2.IH"(4)[OF refl VFloat] VFloat by simp
  next
    case (VString s)
    show ?thesis using assms(3)[of v m prefix k result] "2.IH"(5)[OF refl VString] VString by simp
  next
    case (VSlice xs)
    show ?thesis using assms(3)[of v m prefix k result] "2.IH"(6)[OF refl VSlice] VSlice by simp
  next
    case (VMap nested)
    show ?thesis
      unfolding VMap
      by (rule assms(2)) (rule "2.IH"(7)[OF refl VMap], rule "2.IH"(8)[OF refl VMap])
  qed
qed

declare flattenMap_loop.simps(2) [simp del]

lemma distinct_flattenMap_loop:
  "distinct (map fst r) \<Longrightarrow> distinct (map fst (flattenMap_loop m p r))"
proof (induction m p r rule: flattenMap_loop_induct)
  case (Nil prefix result)
  then show ?case by simp
next
  case (Nested k nested m prefix result)
  then show ?case by (simp add: flattenMap_loop_VMap distinct_mergeMaps)
next
  case (Leaf k v m prefix result)
  then show ?case by (simp add: flattenMap_loop_leaf AList.distinct_update)
qed

lemma leaves_VMap:
  "leaves ((k, VMap nested) # m) prefix = leaves nested (join_key prefix k) @ leaves m prefix"
  by simp

lemma leaves_leaf:
  "\<not> is_VMap v \<Longrightarrow> leaves ((k, v) # m) prefix = (join_key prefix k, v) # leaves m prefix"
  by (cases v) simp_all

declare leaves.simps(2) [simp del]

lemma map_of_flattenMap_loop:
  "map_of (flattenMap_loop m p r) = map_of r ++ map_of (rev (leaves m p))"
proof (induction m p r rule: flattenMap_loop_induct)
  case (Nil prefix result)
  show ?case by simp
next
  case (Nested k nested m prefix result)
  have d: "distinct (map fst (flattenMap_loop nested (join_key prefix k) []))"
    by (rule distinct_flattenMap_loop) simp
  show ?case
    using Nested
    by (simp add: flattenMap_loop_VMap leaves_VMap map_of_mergeMaps map_of_rev_distinct[OF d])
next
  case (Leaf k v m prefix result)
  then show ?case
    by (simp add: flattenMap_loop_leaf leaves_leaf AList.update_conv' map_add_def fun_eq_iff
        split: option.splits)
qed

lemma flattenMap_loop_flat:
  "distinct (map fst (acc @ r)) \<Longrightarrow> \<forall>(k, v) \<in> set r. \<not> is_VMap v \<Longrightarrow>
   flattenMap_loop r [] acc = acc @ r"
proof (induction r arbitrary: acc)
  case Nil
  then show ?case by simp
next
  case (Cons e r)
  obtain k v where e: "e = (k, v)" by (cases e)
  have upd: "AList.update k v acc = acc @ [(k, v)]"
    using Cons.prems(1) e by (induction acc) auto
  have "flattenMap_loop (e # r) [] acc = flattenMap_loop r [] (acc @ [(k, v)])"
    using Cons.prems(2) e upd by (simp add: flattenMap_loop_leaf join_key_def)
  also have "\<dots> = (acc @ [(k, v)]) @ r"
    using Cons.prems e by (intro Cons.IH) auto
  finally show ?case using e by simp
qed

lemma set_update_subset: "set (AList.update k v al) \<subseteq> insert (k, v) (set al)"
  by (induction al) auto

lemma no_VMap_mergeMaps:
  "\<forall>(k, v) \<in> set dst. \<not> is_VMap v \<Longrightarrow> \<forall>(k, v) \<in> set src. \<not> is_VMap v \<Longrightarrow>
   \<forall>(k, v) \<in> set (mergeMaps dst src). \<not> is_VMap v"
proof (induction dst src rule: mergeMaps.induct)
  case (1 dst)
  then show ?case by simp
next
  case (2 dst k v src)
  have "\<forall>(k, v) \<in> set (AList.update k v dst). \<not> is_VMap v"
    using set_update_subset[of k v dst] "2.prems" by auto
  with 2 show ?case by simp
qed

lemma no_VMap_flattenMap_loop:
  "\<forall>(k, v) \<in> set r. \<not> is_VMap v \<Longrightarrow> \<forall>(k, v) \<in> set (flattenMap_loop m p r). \<not> is_VMap v"
proof (induction m p r rule: flattenMap_loop_induct)
  case (Nil prefix result)
  then show ?case by simp
next
  case (Nested k nested m prefix result)
  have "\<forall>(k, v) \<in> set (flattenMap_loop nested (join_key prefix k) []). \<not> is_VMap v"
    by (rule Nested.IH(1)) simp
  then have "\<forall>(k, v) \<in> set (mergeMaps result (flattenMap_loop nested (join_key prefix k) [])).
      \<not> is_VMap v"
    by (rule no_VMap_mergeMaps[OF Nested.prems])
  then show ?case
    by (simp add: flattenMap_loop_VMap Nested.IH(2))
next
  case (Leaf k v m prefix result)
  have "\<forall>(k, v) \<in> set (AList.update (join_key prefix k) v result). \<not> is_VMap v"
    using set_update_subset[of "join_key prefix k" v result] Leaf.prems Leaf.hyps by auto
  then show ?case
    by (simp add: flattenMap_loop_leaf Leaf.hyps Leaf.IH)
qed

lemma gomap_induct [case_names Nil Nested Leaf]:
  assumes "P []"
    and "\<And>k nested m. P nested \<Longrightarrow> P m \<Longrightarrow> P ((k, VMap nested) # m)"
    and "\<And>k v m. \<not> is_VMap v \<Longrightarrow> P m \<Longrightarrow> P ((k, v) # m)"
  shows "P (m :: 'f gomap)"
  using flattenMap_loop_induct[of "\<lambda>m p r. P m" m "[]" "[]"] assms by blast

lemma leaf_paths_VMap:
  "leaf_paths ((k, VMap nested) # m) = map (\<lambda>(p, x). (k # p, x)) (leaf_paths nested) @ leaf_paths m"
  by simp

lemma leaf_paths_leaf:
  "\<not> is_VMap v \<Longrightarrow> leaf_paths ((k, v) # m) = ([k], v) # leaf_paths m"
  by (cases v) simp_all

declare leaf_paths.simps(2) [simp del]

lemma leaf_paths_nonempty: "(path, x) \<in> set (leaf_paths m) \<Longrightarrow> path \<noteq> []"
  by (induction m rule: gomap_induct) (auto simp: leaf_paths_VMap leaf_paths_leaf)

lemma join_Cons: "path \<noteq> [] \<Longrightarrow> join sep (k # path) = k @ sep @ join sep path"
  by (cases path) simp_all

lemma leaves_prefixed:
  "p \<noteq> [] \<Longrightarrow> leaves m p = map (\<lambda>(path, v). (p @ ''.'' @ join ''.'' path, v)) (leaf_paths m)"
proof (induction m arbitrary: p rule: gomap_induct)
  case Nil
  show ?case by simp
next
  case (Nested k nested m)
  have ne: "join_key p k \<noteq> []" using Nested.prems by (simp add: join_key_def)
  have "leaves nested (join_key p k) =
        map (\<lambda>(path, v). (p @ ''.'' @ join ''.'' (k # path), v)) (leaf_paths nested)"
    unfolding Nested.IH(1)[OF ne]
    using Nested.prems
    by (intro map_cong refl) (auto simp: join_key_def join_Cons dest: leaf_paths_nonempty)
  then show ?case
    using Nested.IH(2)[OF Nested.prems]
    by (simp add: leaves_VMap leaf_paths_VMap comp_def case_prod_unfold)
next
  case (Leaf k v m)
  then show ?case by (simp add: leaves_leaf leaf_paths_leaf join_key_def)
qed

lemma leaves_unprefixed:
  "\<forall>(k, v) \<in> set m. is_VMap v \<longrightarrow> k \<noteq> [] \<Longrightarrow>
   leaves m [] = map (\<lambda>(path, v). (join ''.'' path, v)) (leaf_paths m)"
proof (induction m rule: gomap_induct)
  case Nil
  show ?case by simp
next
  case (Nested k nested m)
  have ne: "k \<noteq> []" using Nested.prems by simp
  have "leaves nested k = map (\<lambda>(path, v). (join ''.'' (k # path), v)) (leaf_paths nested)"
    unfolding leaves_prefixed[OF ne]
    by (intro map_cong refl) (auto simp: join_Cons dest: leaf_paths_nonempty)
  then show ?case
    using Nested.IH(2) Nested.prems
    by (simp add: leaves_VMap leaf_paths_VMap comp_def case_prod_unfold join_key_def)
next
  case (Leaf k v m)
  then show ?case by (simp add: leaves_leaf leaf_paths_leaf join_key_def)
qed

lemma leaves_flat_spec:
  "prefix \<noteq> [] \<or> (\<forall>(k, v) \<in> set m. is_VMap v \<longrightarrow> k \<noteq> []) \<Longrightarrow> leaves m prefix = flat_spec prefix m"
  using leaves_prefixed[of prefix m] leaves_unprefixed[of m]
  by (cases "prefix = []") (auto simp: flat_spec_def dot_path_def)

lemma leaf_paths_no_VMap: "(path, x) \<in> set (leaf_paths m) \<Longrightarrow> \<not> is_VMap x"
  by (induction m arbitrary: path rule: gomap_induct) (auto simp: leaf_paths_VMap leaf_paths_leaf)

section \<open>Loading and merging the sources\<close>

lemma distinct_EnvSource_loop:
  "distinct (map fst r) \<Longrightarrow> distinct (map fst (EnvSource_loop lib envs r))"
proof (induction envs arbitrary: r)
  case Nil
  then show ?case by simp
next
  case (Cons env envs)
  show ?case
  proof (cases "\<exists>p0 p1. SplitN2 env CHR ''='' = [p0, p1]")
    case True
    then obtain p0 p1 where p: "SplitN2 env CHR ''='' = [p0, p1]" by blast
    show ?thesis
      using p Cons.prems by (simp add: Let_def Cons.IH AList.distinct_update)
  next
    case False
    then have "EnvSource_loop lib (env # envs) r = EnvSource_loop lib envs r"
      by (simp split: list.splits)
    then show ?thesis using Cons by simp
  qed
qed

lemma distinct_flattenMap: "distinct (map fst (flattenMap m p))"
  unfolding flattenMap_def by (rule distinct_flattenMap_loop) simp

lemma distinct_source_Load:
  "source_Load lib w s = Inr d \<Longrightarrow> distinct (map fst d)"
proof (cases s)
  case (FileSource path)
  assume "source_Load lib w s = Inr d"
  with FileSource show ?thesis
    by (auto simp: FileSource_Load_def Let_def distinct_flattenMap
        split: read_result.splits if_splits sum.splits)
next
  case EnvSource
  assume "source_Load lib w s = Inr d"
  with EnvSource show ?thesis
    using distinct_EnvSource_loop[of "[]" lib "Environ w"] by (auto simp: EnvSource_Load_def)
next
  case (MapSource m)
  assume "source_Load lib w s = Inr d"
  with MapSource show ?thesis by (auto simp: MapSource_Load_def distinct_flattenMap)
qed

lemma map_of_mergeMaps_distinct:
  "distinct (map fst src) \<Longrightarrow> map_of (mergeMaps dst src) = map_of dst ++ map_of src"
  by (simp add: map_of_mergeMaps map_of_rev_distinct)

lemma Load_loop_fail:
  "Load_loop lib w pre acc = Inr m \<Longrightarrow> source_Load lib w s = Inl e \<Longrightarrow>
   Load_loop lib w (pre @ s # post) acc = Inl (WrapError ''failed to load from source: '' e)"
proof (induction pre arbitrary: acc)
  case Nil
  then show ?case by simp
next
  case (Cons s0 pre)
  from Cons.prems(1) obtain d0 where d0: "source_Load lib w s0 = Inr d0"
    by (cases "source_Load lib w s0") auto
  have "Load_loop lib w pre (mergeMaps acc d0) = Inr m" using Cons.prems(1) d0 by simp
  from Cons.IH[OF this Cons.prems(2)] show ?case using d0 by simp
qed

lemma Load_loop_total:
  "\<forall>s \<in> set srcs. \<exists>d. source_Load lib w s = Inr d \<Longrightarrow> \<exists>merged. Load_loop lib w srcs acc = Inr merged"
proof (induction srcs arbitrary: acc)
  case Nil
  show ?case by simp
next
  case (Cons s rest)
  from Cons.prems obtain d0 where d0: "source_Load lib w s = Inr d0" by auto
  have "\<forall>s \<in> set rest. \<exists>d. source_Load lib w s = Inr d" using Cons.prems by simp
  from Cons.IH[OF this, of "mergeMaps acc d0"] show ?case using d0 by simp
qed

lemma Load_loop_absent:
  "Load_loop lib w srcs acc = Inr merged \<Longrightarrow>
   \<forall>s \<in> set srcs. \<forall>d. source_Load lib w s = Inr d \<longrightarrow> K \<notin> fst ` set d \<Longrightarrow>
   map_of merged K = map_of acc K"
proof (induction srcs arbitrary: acc)
  case Nil
  then show ?case by simp
next
  case (Cons s rest)
  from Cons.prems(1) obtain d0 where d0: "source_Load lib w s = Inr d0"
    by (cases "source_Load lib w s") auto
  have run: "Load_loop lib w rest (mergeMaps acc d0) = Inr merged"
    using Cons.prems(1) d0 by simp
  have rest: "\<forall>s \<in> set rest. \<forall>d. source_Load lib w s = Inr d \<longrightarrow> K \<notin> fst ` set d"
    using Cons.prems(2) by simp
  have "K \<notin> fst ` set d0" using Cons.prems(2) d0 by simp
  then have "map_of d0 K = None" by (simp add: map_of_eq_None_iff)
  then have "map_of (mergeMaps acc d0) K = map_of acc K"
    by (simp add: map_of_mergeMaps_distinct[OF distinct_source_Load[OF d0]] map_add_def)
  with Cons.IH[OF run rest] show ?case by simp
qed

lemma Load_loop_last:
  "Load_loop lib w srcs acc = Inr merged \<Longrightarrow> i < length srcs \<Longrightarrow>
   source_Load lib w (srcs ! i) = Inr d \<Longrightarrow> K \<in> fst ` set d \<Longrightarrow>
   \<forall>j d'. i < j \<and> j < length srcs \<and> source_Load lib w (srcs ! j) = Inr d' \<longrightarrow> K \<notin> fst ` set d' \<Longrightarrow>
   map_of merged K = map_of d K"
proof (induction srcs arbitrary: acc i)
  case Nil
  then show ?case by simp
next
  case (Cons s rest)
  from Cons.prems(1) obtain d0 where d0: "source_Load lib w s = Inr d0"
    by (cases "source_Load lib w s") auto
  have run: "Load_loop lib w rest (mergeMaps acc d0) = Inr merged"
    using Cons.prems(1) d0 by simp
  show ?case
  proof (cases i)
    case 0
    then have dd: "d = d0" using Cons.prems(3) d0 by simp
    have "\<forall>s' \<in> set rest. \<forall>d'. source_Load lib w s' = Inr d' \<longrightarrow> K \<notin> fst ` set d'"
    proof (intro ballI allI impI)
      fix s' d' assume s': "s' \<in> set rest" and l': "source_Load lib w s' = Inr d'"
      from s' obtain j where j: "j < length rest" "rest ! j = s'" by (auto simp: in_set_conv_nth)
      have "0 < Suc j \<and> Suc j < length (s # rest) \<and> source_Load lib w ((s # rest) ! Suc j) = Inr d'"
        using j l' by simp
      then show "K \<notin> fst ` set d'" using Cons.prems(5) 0 by blast
    qed
    from Load_loop_absent[OF run this]
    have "map_of merged K = map_of (mergeMaps acc d0) K" .
    moreover obtain v where "map_of d0 K = Some v"
      using Cons.prems(4) dd by (cases "map_of d0 K") (auto simp: map_of_eq_None_iff)
    ultimately show ?thesis
      using dd by (simp add: map_of_mergeMaps_distinct[OF distinct_source_Load[OF d0]] map_add_def)
  next
    case (Suc i')
    have 1: "i' < length rest" using Cons.prems(2) Suc by simp
    have 2: "source_Load lib w (rest ! i') = Inr d" using Cons.prems(3) Suc by simp
    have 3: "\<forall>j d'. i' < j \<and> j < length rest \<and> source_Load lib w (rest ! j) = Inr d' \<longrightarrow>
                     K \<notin> fst ` set d'"
    proof (intro allI impI)
      fix j d' assume a: "i' < j \<and> j < length rest \<and> source_Load lib w (rest ! j) = Inr d'"
      then have "i < Suc j \<and> Suc j < length (s # rest) \<and> source_Load lib w ((s # rest) ! Suc j) = Inr d'"
        using Suc by simp
      then show "K \<notin> fst ` set d'" using Cons.prems(5) by blast
    qed
    show ?thesis by (rule Cons.IH[OF run 1 2 Cons.prems(4) 3])
  qed
qed

lemma Load_loop_cong:
  "map (source_Load lib w) srcs' = map (source_Load lib w) srcs \<Longrightarrow>
   Load_loop lib w srcs' acc = Load_loop lib w srcs acc"
proof (induction srcs arbitrary: srcs' acc)
  case Nil
  then show ?case by simp
next
  case (Cons s rest)
  then obtain s' rest' where sr: "srcs' = s' # rest'" by (cases srcs') auto
  have h: "source_Load lib w s' = source_Load lib w s"
    and t: "map (source_Load lib w) rest' = map (source_Load lib w) rest"
    using Cons.prems sr by simp_all
  show ?case
    unfolding sr using h Cons.IH[OF t] by (cases "source_Load lib w s") simp_all
qed

section \<open>Evaluation on concrete inputs\<close>

lemmas eval_simps = Itoa_def digits_of.simps char_of_def bit_0 Atoi_def ParseInt_def ParseUint_def
  is_digit_def digit_val_def TrimSpace_def is_space_def SplitN2_def ToLower_def lower_char_def
  ParseBool_def Let_def

lemma ParseBool_true: "ParseBool ''true'' = Inr True" by (simp add: ParseBool_def)
lemma ParseBool_42: "ParseBool ''42'' = Inl ErrSyntax" by (simp add: ParseBool_def)
lemma ParseBool_314: "ParseBool ''3.14'' = Inl ErrSyntax" by (simp add: ParseBool_def)
lemma ParseBool_hello: "ParseBool ''hello'' = Inl ErrSyntax" by (simp add: ParseBool_def)
lemma ParseInt_42: "ParseInt ''42'' = Inr 42"
  by (simp add: ParseInt_def ParseUint_def is_digit_def digit_val_def)
lemma ParseInt_314: "ParseInt ''3.14'' = Inl ErrSyntax"
  by (simp add: ParseInt_def ParseUint_def is_digit_def digit_val_def)
lemma ParseInt_hello: "ParseInt ''hello'' = Inl ErrSyntax"
  by (simp add: ParseInt_def ParseUint_def is_digit_def digit_val_def)

section \<open>Key lookup, validation and the loop over the fields\<close>

lemma ToLower_eq_Nil [simp]: "ToLower s = [] \<longleftrightarrow> s = []"
  by (simp add: ToLower_def)

lemma ToLower_Nil_iff: "ToLower a = ToLower b \<Longrightarrow> a = [] \<longleftrightarrow> b = []"
  by (metis ToLower_eq_Nil)

lemma validateField_loop_skip:
  "vs (hd (SplitN2 (TrimSpace r) CHR '':'')) = None \<Longrightarrow>
   validateField_loop vs fieldName value (pre @ r # post) =
   validateField_loop vs fieldName value (pre @ post)"
proof (induction pre)
  case Nil
  have "SplitN2 (TrimSpace r) CHR '':'' \<noteq> []" by (simp add: SplitN2_def)
  then have "(case SplitN2 (TrimSpace r) CHR '':'' of [] \<Rightarrow> [] | p0 # x \<Rightarrow> p0) =
             hd (SplitN2 (TrimSpace r) CHR '':'')"
    by (cases "SplitN2 (TrimSpace r) CHR '':''") simp_all
  with Nil show ?case by (simp add: Let_def)
next
  case (Cons p pre)
  then show ?case by (simp add: Let_def split: option.splits)
qed

lemma range_validator_direct:
  assumes "Split param CHR '','' = [p0, p1]"
    and "Atoi (TrimSpace p0) = Inr lo" and "Atoi (TrimSpace p1) = Inr hi"
  shows "range_validator lib value param = None \<longleftrightarrow>
         (\<exists>val. Atoi (Sprint lib value) = Inr val \<and> lo \<le> val \<and> val \<le> hi)"
  using assms by (auto simp: range_validator_def split: sum.splits)

lemma range_validator_errors:
  "(\<exists>e. Atoi (Sprint lib value) = Inl e) \<or>
   (\<nexists>p0 p1 lo hi. Split param CHR '','' = [p0, p1] \<and> Atoi (TrimSpace p0) = Inr lo \<and>
        Atoi (TrimSpace p1) = Inr hi) \<Longrightarrow>
   range_validator lib value param \<noteq> None"
  by (auto simp: range_validator_def split: sum.splits list.splits)

lemma applyToStruct_loop_length:
  "length (fst (applyToStruct_loop l lib data flds)) = length flds"
  by (induction flds) (auto split: sum.splits prod.splits)

lemma applyToStruct_loop_keep:
  "i < length flds \<Longrightarrow> applyField l lib data (flds ! i) = Inr (flds ! i) \<Longrightarrow>
   fst (applyToStruct_loop l lib data flds) ! i = flds ! i"
proof (induction flds arbitrary: i)
  case Nil
  then show ?case by simp
next
  case (Cons f flds)
  show ?case
  proof (cases i)
    case 0
    with Cons.prems show ?thesis by (simp split: prod.splits)
  next
    case (Suc i')
    have "fst (applyToStruct_loop l lib data flds) ! i' = flds ! i'"
      using Cons.prems Suc by (intro Cons.IH) simp_all
    then show ?thesis
      using Suc
      by (cases "applyField l lib data f"; cases "applyToStruct_loop l lib data flds") simp_all
  qed
qed

lemma applyToStruct_loop_all_keep:
  "\<forall>f \<in> set flds. applyField l lib data f = Inr f \<Longrightarrow>
   applyToStruct_loop l lib data flds = (flds, None)"
  by (induction flds) simp_all

lemma applyField_unresolved:
  "findValue data (getFieldConfig field) = VNil \<Longrightarrow> tag_default field = [] \<Longrightarrow>
   applyField l lib data field = Inr field"
  by (simp add: applyField_def getFieldConfig_def Let_def)

lemma applyToStruct_loop_abort:
  "list_all2 (\<lambda>f f'. applyField l lib data f = Inr f') pre pre' \<Longrightarrow>
   applyField l lib data fld = Inl e \<Longrightarrow>
   applyToStruct_loop l lib data (pre @ fld # post) = (pre' @ fld # post, Some e)"
  by (induction pre pre' rule: list_all2_induct) simp_all

lemma applyToStruct_loop_ok:
  "list_all2 (\<lambda>f f'. applyField l lib data f = Inr f') flds flds' \<Longrightarrow>
   applyToStruct_loop l lib data flds = (flds', None)"
  by (induction flds flds' rule: list_all2_induct) simp_all

lemma example_env_load:
  "source_Load example_lib example_world EnvSource =
     Inr [(''app_port'', VInt 8080), (''home'', VString ''/root'')]"
  by (simp add: EnvSource_Load_def example_world_def parseValue_def example_lib_def eval_simps)

lemma example_map_load:
  "source_Load lib w (MapSource [(''app_port'', VInt 3000)]) = Inr [(''app_port'', VInt 3000)]"
  by (simp add: MapSource_Load_def flattenMap_def flattenMap_loop_leaf join_key_def)

lemma example_Load_loop_port:
  "Load_loop lib w (sources (AddMap [(''port'', VInt 3000)] (New lib))) [] =
     Inr [(''port'', VInt 3000)]"
  by (simp add: AddMap_def New_def MapSource_Load_def flattenMap_def flattenMap_loop_leaf join_key_def)

lemma example_Load_loop_port_email:
  "Load_loop lib w
     (sources (AddMap [(''port'', VInt 3000), (''email'', VString ''invalid-email'')] (New lib))) [] =
     Inr [(''port'', VInt 3000), (''email'', VString ''invalid-email'')]"
  by (simp add: AddMap_def New_def MapSource_Load_def flattenMap_def flattenMap_loop_leaf join_key_def)

lemma example_toml_fails:
  "source_Load lib toml_world (FileSource ''app.TOML'') =
     Inl (ErrorString ''unsupported file format: toml'')"
  by (simp add: FileSource_Load_def toml_world_def file_ext_def eval_simps)

lemma example_apply_Port:
  "applyField l example_lib [(''port'', VInt 3000), (''email'', VString ''invalid-email'')] example_Port =
     Inr (example_Port\<lparr>Val := IntVal 3000\<rparr>)"
  by (simp add: applyField_def getFieldConfig_def findValue_def example_Port_def setValue_def
      SetInt_def eval_simps)

lemma example_apply_Email:
  "applyField (AddMap d (New example_lib)) example_lib
      [(''port'', VInt 3000), (''email'', VString ''invalid-email'')] example_Email =
     Inl (ValidationError ''Email'' (VString ''invalid-email'') ''email'' ''invalid email format'')"
  by (simp add: applyField_def getFieldConfig_def findValue_def example_Email_def
      validateField_def AddMap_def New_def getBuiltinValidators_def required_validator_def
      email_validator_def emailRegex_MatchString_def eval_simps)

lemma Load_source_error:
  "Load_loop lib w pre [] = Inr m \<Longrightarrow> source_Load lib w s = Inl e \<Longrightarrow>
   sources l = pre @ s # post \<Longrightarrow>
   Load l lib w config = (config, Some (WrapError ''failed to load from source: '' e))"
  using Load_loop_fail[of lib w pre "[]" m s e post] by (simp add: Load_def)

section \<open>The claims\<close>

text \<open>
  Claim C6. Flattening is idempotent: flattening the result of \<^verbatim>\<open>flattenMap(M, "")\<close> again
  with the empty prefix yields the same mapping. It holds for the result of flattening
  under any prefix, and as an equality of the maps entry by entry, in the same order.
\<close>

theorem flattenMap_idempotent:
  "flattenMap (flattenMap m prefix) [] = flattenMap m prefix"
  unfolding flattenMap_def
  using flattenMap_loop_flat[of "[]" "flattenMap_loop m prefix []"]
    distinct_flattenMap_loop[of "[]" m prefix] no_VMap_flattenMap_loop[of "[]" m prefix]
  by simp

theorem flattenMap_idempotent_witness:
  "flattenMap (flattenMap [(''a'', VMap [(''b'', VInt 1), (''c'', VSlice [VNil])]),
                           (''d'', VString ''x'' :: real gvalue)] []) [] =
   [(''a.b'', VInt 1), (''a.c'', VSlice [VNil]), (''d'', VString ''x'')]"
proof -
  have "flattenMap [(''a'', VMap [(''b'', VInt 1), (''c'', VSlice [VNil])]),
                    (''d'', VString ''x'' :: real gvalue)] [] =
        [(''a.b'', VInt 1), (''a.c'', VSlice [VNil]), (''d'', VString ''x'')]"
    by (simp add: flattenMap_def flattenMap_loop_VMap flattenMap_loop_leaf join_key_def)
  then show ?thesis
    using flattenMap_idempotent[of "[(''a'', VMap [(''b'', VInt 1), (''c'', VSlice [VNil])]),
                    (''d'', VString ''x'' :: real gvalue)]" "[]"]
    by simp
qed

text \<open>
  Claim C7. \<^verbatim>\<open>parseValue\<close> tries the boolean parse, then the signed 64-bit integer parse,
  then the float parse, in that order, and returns the result of the first that succeeds,
  otherwise the string itself. So \<^verbatim>\<open>"true"\<close> gives the boolean true and \<^verbatim>\<open>"42"\<close> the
  integer 42; \<^verbatim>\<open>"3.14"\<close> and \<^verbatim>\<open>"hello"\<close> fail both earlier parses, so the first gives the
  float that \<^verbatim>\<open>strconv.ParseFloat\<close> reads and the second, on which it fails, the string.
\<close>

theorem parseValue_order:
  "(ParseBool s = Inr b \<longrightarrow> parseValue lib s = VBool b) \<and>
   (ParseBool s = Inl e1 \<and> ParseInt s = Inr i \<longrightarrow> parseValue lib s = VInt i) \<and>
   (ParseBool s = Inl e1 \<and> ParseInt s = Inl e2 \<and> ParseFloat lib s = Inr f \<longrightarrow>
      parseValue lib s = VFloat f) \<and>
   (ParseBool s = Inl e1 \<and> ParseInt s = Inl e2 \<and> ParseFloat lib s = Inl e3 \<longrightarrow>
      parseValue lib s = VString s) \<and>
   parseValue lib ''true'' = VBool True \<and>
   parseValue lib ''42'' = VInt 42 \<and>
   (ParseFloat lib ''3.14'' = Inr f314 \<longrightarrow> parseValue lib ''3.14'' = VFloat f314) \<and>
   (ParseFloat lib ''hello'' = Inl e4 \<longrightarrow> parseValue lib ''hello'' = VString ''hello'')"
  by (simp add: parseValue_def ParseBool_true ParseBool_42 ParseBool_314 ParseBool_hello
      ParseInt_42 ParseInt_314 ParseInt_hello)

theorem parseValue_order_witness:
  "parseValue example_lib ''1'' = VBool True \<and>
   parseValue example_lib ''-7'' = VInt (- 7) \<and>
   parseValue example_lib ''3.14'' = VFloat 3.14 \<and>
   parseValue example_lib ''hello'' = VString ''hello''"
proof -
  have b: "ParseBool ''1'' = Inr True" by (simp add: ParseBool_def)
  have b7: "ParseBool ''-7'' = Inl ErrSyntax" by (simp add: ParseBool_def)
  have i7: "ParseInt ''-7'' = Inr (- 7)"
    by (simp add: ParseInt_def ParseUint_def is_digit_def digit_val_def)
  have f: "ParseFloat example_lib ''3.14'' = Inr 3.14" by (simp add: example_lib_def)
  have h: "ParseFloat example_lib ''hello'' = Inl ErrSyntax" by (simp add: example_lib_def)
  show ?thesis
    using parseValue_order[of "''1''" True example_lib]
      parseValue_order[of "''-7''" _ example_lib ErrSyntax "- 7"]
      parseValue_order[of "''3.14''" _ example_lib ErrSyntax _ ErrSyntax "3.14"]
      parseValue_order[of "''hello''" _ example_lib ErrSyntax _ ErrSyntax _ ErrSyntax]
      b b7 i7 f h ParseBool_314 ParseBool_hello ParseInt_314 ParseInt_hello
    by simp
qed

text \<open>
  Claim C3, as amended. Value resolution first looks up the lower-cased form of the field's
  declared env-key in the merged namespace, by exact match, and uses that value when the
  key is there; so the case of the declared env-key does not matter, and only a namespace
  key that is itself in lower case can match it. Only when the env-key is undeclared or
  its lower-cased form is absent does it look up the config-key, again by exact match; when
  neither is found the result is nil. This order is a property of the lookup alone: in a
  namespace merged from two sources in either order, a present env-key decides the value.
\<close>

theorem findValue_env_then_cfg:
  fixes data a b :: "'f gomap"
  shows
  "(envKey cfg \<noteq> [] \<and> map_of data (ToLower (envKey cfg)) = Some v \<longrightarrow> findValue data cfg = v) \<and>
   ((envKey cfg = [] \<or> map_of data (ToLower (envKey cfg)) = None) \<and>
      cfgKey cfg \<noteq> [] \<and> map_of data (cfgKey cfg) = Some v \<longrightarrow> findValue data cfg = v) \<and>
   ((envKey cfg = [] \<or> map_of data (ToLower (envKey cfg)) = None) \<and>
      (cfgKey cfg = [] \<or> map_of data (cfgKey cfg) = None) \<longrightarrow> findValue data cfg = VNil) \<and>
   (ToLower e' = ToLower (envKey cfg) \<longrightarrow>
      findValue data (cfg\<lparr>envKey := e'\<rparr>) = findValue data cfg) \<and>
   (envKey cfg \<noteq> [] \<and> ToLower (envKey cfg) \<in> fst ` set a \<union> fst ` set b \<longrightarrow>
      map_of (mergeMaps (mergeMaps [] a) b) (ToLower (envKey cfg)) =
        Some (findValue (mergeMaps (mergeMaps [] a) b) cfg) \<and>
      map_of (mergeMaps (mergeMaps [] b) a) (ToLower (envKey cfg)) =
        Some (findValue (mergeMaps (mergeMaps [] b) a) cfg))"
proof -
  have present: "\<exists>x. map_of (mergeMaps (mergeMaps [] p) q) k = Some x"
    if "k \<in> fst ` set p \<union> fst ` set q" for p q :: "'f gomap" and k
  proof -
    have "k \<in> fst ` set (mergeMaps (mergeMaps [] p) q)"
      using that by (simp add: keys_mergeMaps)
    then show ?thesis
      by (cases "map_of (mergeMaps (mergeMaps [] p) q) k") (simp_all add: map_of_eq_None_iff)
  qed
  have env: "map_of d (ToLower (envKey cfg)) = Some (findValue d cfg)"
    if "envKey cfg \<noteq> []" "\<exists>x. map_of d (ToLower (envKey cfg)) = Some x" for d :: "'f gomap"
    using that by (auto simp: findValue_def)
  have 5: "envKey cfg \<noteq> [] \<and> ToLower (envKey cfg) \<in> fst ` set a \<union> fst ` set b \<longrightarrow>
      map_of (mergeMaps (mergeMaps [] a) b) (ToLower (envKey cfg)) =
        Some (findValue (mergeMaps (mergeMaps [] a) b) cfg) \<and>
      map_of (mergeMaps (mergeMaps [] b) a) (ToLower (envKey cfg)) =
        Some (findValue (mergeMaps (mergeMaps [] b) a) cfg)"
    using env[OF _ present[of _ a b]] env[OF _ present[of _ b a]] by blast
  have 4: "ToLower e' = ToLower (envKey cfg) \<longrightarrow>
      findValue data (cfg\<lparr>envKey := e'\<rparr>) = findValue data cfg"
    using ToLower_Nil_iff[of e' "envKey cfg"] by (auto simp: findValue_def split: option.splits)
  have 123: "(envKey cfg \<noteq> [] \<and> map_of data (ToLower (envKey cfg)) = Some v \<longrightarrow> findValue data cfg = v) \<and>
   ((envKey cfg = [] \<or> map_of data (ToLower (envKey cfg)) = None) \<and>
      cfgKey cfg \<noteq> [] \<and> map_of data (cfgKey cfg) = Some v \<longrightarrow> findValue data cfg = v) \<and>
   ((envKey cfg = [] \<or> map_of data (ToLower (envKey cfg)) = None) \<and>
      (cfgKey cfg = [] \<or> map_of data (cfgKey cfg) = None) \<longrightarrow> findValue data cfg = VNil)"
    by (auto simp: findValue_def)
  show ?thesis using 123 4 5 by blast
qed

theorem findValue_env_then_cfg_witness:
  "findValue [(''port'', VInt 3000), (''app_port'', VInt 8080 :: real gvalue)]
     \<lparr>cfgKey = ''port'', envKey = ''APP_PORT'', validate = [], defaultValue = []\<rparr> = VInt 8080 \<and>
   findValue [(''port'', VInt 3000), (''app_port'', VInt 8080 :: real gvalue)]
     \<lparr>cfgKey = ''port'', envKey = ''DEBUG'', validate = [], defaultValue = []\<rparr> = VInt 3000 \<and>
   findValue [(''port'', VInt 3000), (''app_port'', VInt 8080 :: real gvalue)]
     \<lparr>cfgKey = ''name'', envKey = [], validate = [], defaultValue = []\<rparr> = VNil \<and>
   findValue [(''port'', VInt 3000), (''app_port'', VInt 8080 :: real gvalue)]
     \<lparr>cfgKey = ''port'', envKey = ''App_Port'', validate = [], defaultValue = []\<rparr> = VInt 8080 \<and>
   findValue (mergeMaps (mergeMaps [] [(''app_port'', VInt 8080 :: real gvalue)]) [(''port'', VInt 3000)])
     \<lparr>cfgKey = ''port'', envKey = ''APP_PORT'', validate = [], defaultValue = []\<rparr> = VInt 8080"
proof -
  let ?data = "[(''port'', VInt 3000), (''app_port'', VInt 8080 :: real gvalue)]"
  let ?cfg = "\<lparr>cfgKey = ''port'', envKey = ''APP_PORT'', validate = [], defaultValue = []\<rparr>"
  have low: "ToLower ''APP_PORT'' = ''app_port''" "ToLower ''DEBUG'' = ''debug''"
    "ToLower ''App_Port'' = ''app_port''"
    by (simp_all add: eval_simps)
  have 1: "findValue ?data ?cfg = VInt 8080"
    using findValue_env_then_cfg[of ?cfg ?data "VInt 8080"] by (simp add: low)
  have 2: "findValue ?data \<lparr>cfgKey = ''port'', envKey = ''DEBUG'', validate = [], defaultValue = []\<rparr>
             = VInt 3000"
    using findValue_env_then_cfg[of "\<lparr>cfgKey = ''port'', envKey = ''DEBUG'', validate = [],
        defaultValue = []\<rparr>" ?data "VInt 3000"] by (simp add: low)
  have 3: "findValue ?data \<lparr>cfgKey = ''name'', envKey = [], validate = [], defaultValue = []\<rparr>
             = VNil"
    using findValue_env_then_cfg[of "\<lparr>cfgKey = ''name'', envKey = [], validate = [],
        defaultValue = []\<rparr>" ?data] by simp
  have 4: "findValue ?data \<lparr>cfgKey = ''port'', envKey = ''App_Port'', validate = [], defaultValue = []\<rparr>
             = VInt 8080"
    using findValue_env_then_cfg[of ?cfg ?data _ "''App_Port''"] 1 by (simp add: low)
  have 5: "findValue (mergeMaps (mergeMaps [] [(''app_port'', VInt 8080 :: real gvalue)]) [(''port'', VInt 3000)])
             ?cfg = VInt 8080"
    using findValue_env_then_cfg[of ?cfg _ _ _ "[(''app_port'', VInt 8080 :: real gvalue)]"
        "[(''port'', VInt 3000)]"] by (simp add: low)
  show ?thesis using 1 2 3 4 5 by simp
qed

text \<open>
  The claim as it is written speaks of a case-insensitive lookup in the merged namespace.
  Here the namespace holds the key \<^verbatim>\<open>PORT\<close>, as a map or file source may supply it. A
  config-key \<^verbatim>\<open>PORT\<close> finds it, but the env-key \<^verbatim>\<open>PORT\<close> does not: the lookup goes on to
  the config-key and returns its value.
\<close>

theorem findValue_case_counterexample:
  "findValue [(''PORT'', VInt 8080), (''port'', VInt 3000)]
     \<lparr>cfgKey = ''PORT'', envKey = [], validate = [], defaultValue = []\<rparr> = (VInt 8080 :: real gvalue) \<and>
   findValue [(''PORT'', VInt 8080), (''cfgport'', VInt 3000)]
     \<lparr>cfgKey = ''cfgport'', envKey = ''PORT'', validate = [], defaultValue = []\<rparr> = (VInt 3000 :: real gvalue)"
  by (simp add: findValue_def ToLower_def lower_char_def char_of_def)

text \<open>
  Claim C8. A clause of a validate expression whose rule name has no validator in the
  Loader's mapping is skipped: validating the expression gives what validating the other
  clauses alone gives, so the clause brings no error, the clauses after it are still run,
  and a failure can only come from them.
\<close>

theorem unknown_rule_skipped:
  assumes "Split rules CHR '','' = pre @ r # post"
    and "validators l (hd (SplitN2 (TrimSpace r) CHR '':'')) = None"
  shows "validateField l fieldName value rules =
         validateField_loop (validators l) fieldName value (pre @ post)"
  using assms by (simp add: validateField_def validateField_loop_skip)

theorem unknown_rule_skipped_witness:
  "validateField (New example_lib) ''Port'' (VInt 8080) ''nosuch, min:9000'' =
     Some (ValidationError ''Port'' (VInt 8080) ''min:9000'' ''value must be at least 9000'') \<and>
   validateField (New example_lib) ''Port'' (VInt 8080) ''min:1,nosuch:7'' = None"
proof -
  have s1: "Split ''nosuch, min:9000'' CHR '','' = [] @ ''nosuch'' # ['' min:9000'']"
    and s2: "Split ''min:1,nosuch:7'' CHR '','' = [''min:1''] @ ''nosuch:7'' # []"
    by simp_all
  have u1: "validators (New example_lib) (hd (SplitN2 (TrimSpace ''nosuch'') CHR '':'')) = None"
    and u2: "validators (New example_lib) (hd (SplitN2 (TrimSpace ''nosuch:7'') CHR '':'')) = None"
    by (simp_all add: New_def getBuiltinValidators_def eval_simps)
  have r1: "validateField_loop (validators (New example_lib)) ''Port'' (VInt 8080) ([] @ ['' min:9000''])
             = Some (ValidationError ''Port'' (VInt 8080) ''min:9000'' ''value must be at least 9000'')"
    and r2: "validateField_loop (validators (New example_lib)) ''Port'' (VInt 8080) ([''min:1''] @ [])
             = None"
    by (simp_all add: New_def getBuiltinValidators_def min_validator_def eval_simps)
  show ?thesis
    using unknown_rule_skipped[OF s1 u1, of "''Port''" "VInt 8080"]
      unknown_rule_skipped[OF s2 u2, of "''Port''" "VInt 8080"] r1 r2
    by simp
qed

text \<open>
  Claim C9. The claim says that \<^verbatim>\<open>range:1000,9999\<close> accepts 1000 and 9999. The validator
  itself does, when it is handed the parameter \<^verbatim>\<open>1000,9999\<close> (\<open>range_validator_direct\<close>),
  but it never is: \<^verbatim>\<open>validateField\<close> cuts the validate expression at every comma before
  it cuts a clause at its colon, so the range validator receives the parameter \<^verbatim>\<open>1000\<close>
  and rejects every value, whatever it is, for want of two parameters.
\<close>

theorem range_clause_rejects_every_value:
  "validateField (New lib) fieldName value ''range:1000,9999'' =
     Some (ValidationError fieldName value ''range:1000''
             ''range validator requires min,max parameters'')"
  by (simp add: validateField_def New_def getBuiltinValidators_def TrimSpace_def is_space_def
      SplitN2_def Let_def range_validator_def)

text \<open>
  Claim C1. When every registered source loads, \<^verbatim>\<open>Load\<close> binds the target against a merged
  namespace in which each key has the value from the last source, in the order of
  registration, whose output holds the key, and in which a key that no output holds is
  absent. \<^verbatim>\<open>Priority()\<close> plays no part: the loop never calls it, and any list of sources
  with the same outputs, whatever their priorities, merges to the same namespace.
\<close>

theorem Load_merges_in_registration_order:
  assumes "\<forall>s \<in> set srcs. \<exists>d. source_Load lib w s = Inr d"
  shows "\<exists>merged. Load_loop lib w srcs [] = Inr merged \<and>
     (\<forall>K i d. i < length srcs \<and> source_Load lib w (srcs ! i) = Inr d \<and> K \<in> fst ` set d \<and>
         (\<forall>j d'. i < j \<and> j < length srcs \<and> source_Load lib w (srcs ! j) = Inr d' \<longrightarrow>
            K \<notin> fst ` set d') \<longrightarrow>
         map_of merged K = map_of d K) \<and>
     (\<forall>K. (\<forall>s \<in> set srcs. \<forall>d. source_Load lib w s = Inr d \<longrightarrow> K \<notin> fst ` set d) \<longrightarrow>
         map_of merged K = None) \<and>
     (\<forall>l config. sources l = srcs \<longrightarrow> Load l lib w config = applyToStruct l lib config merged) \<and>
     (\<forall>srcs'. map (source_Load lib w) srcs' = map (source_Load lib w) srcs \<longrightarrow>
         Load_loop lib w srcs' [] = Inr merged)"
proof -
  from Load_loop_total[OF assms, of "[]"]
  obtain merged where m: "Load_loop lib w srcs [] = Inr merged" by blast
  have a: "\<forall>K i d. i < length srcs \<and> source_Load lib w (srcs ! i) = Inr d \<and> K \<in> fst ` set d \<and>
         (\<forall>j d'. i < j \<and> j < length srcs \<and> source_Load lib w (srcs ! j) = Inr d' \<longrightarrow>
            K \<notin> fst ` set d') \<longrightarrow>
         map_of merged K = map_of d K"
  proof (intro allI impI)
    fix K i d
    assume h: "i < length srcs \<and> source_Load lib w (srcs ! i) = Inr d \<and> K \<in> fst ` set d \<and>
         (\<forall>j d'. i < j \<and> j < length srcs \<and> source_Load lib w (srcs ! j) = Inr d' \<longrightarrow>
            K \<notin> fst ` set d')"
    note h1 = h[THEN conjunct1] and h2 = h[THEN conjunct2, THEN conjunct1]
      and h3 = h[THEN conjunct2, THEN conjunct2, THEN conjunct1]
      and h4 = h[THEN conjunct2, THEN conjunct2, THEN conjunct2]
    show "map_of merged K = map_of d K"
      by (rule Load_loop_last[OF m h1 h2 h3 h4])
  qed
  have b: "\<forall>K. (\<forall>s \<in> set srcs. \<forall>d. source_Load lib w s = Inr d \<longrightarrow> K \<notin> fst ` set d) \<longrightarrow>
         map_of merged K = None"
  proof (intro allI impI)
    fix K
    assume "\<forall>s \<in> set srcs. \<forall>d. source_Load lib w s = Inr d \<longrightarrow> K \<notin> fst ` set d"
    from Load_loop_absent[OF m this] show "map_of merged K = None" by simp
  qed
  have c: "\<forall>l config. sources l = srcs \<longrightarrow> Load l lib w config = applyToStruct l lib config merged"
    using m by (simp add: Load_def)
  have d: "\<forall>srcs'. map (source_Load lib w) srcs' = map (source_Load lib w) srcs \<longrightarrow>
         Load_loop lib w srcs' [] = Inr merged"
  proof (intro allI impI)
    fix srcs'
    assume "map (source_Load lib w) srcs' = map (source_Load lib w) srcs"
    from Load_loop_cong[OF this, of "[]"] show "Load_loop lib w srcs' [] = Inr merged"
      by (simp add: m)
  qed
  show ?thesis by (intro exI[of _ merged] conjI m a b c d)
qed

theorem Load_merges_in_registration_order_witness:
  "Priority (MapSource [(''app_port'', VInt 3000)] :: real source) < Priority (EnvSource :: real source) \<and>
   (\<exists>merged. Load_loop example_lib example_world [EnvSource, MapSource [(''app_port'', VInt 3000)]] []
        = Inr merged \<and>
      map_of merged ''app_port'' = Some (VInt 3000) \<and>
      map_of merged ''home'' = Some (VString ''/root'') \<and>
      map_of merged ''port'' = None)"
proof -
  let ?srcs = "[EnvSource, MapSource [(''app_port'', VInt 3000)]] :: real source list"
  have ok: "\<forall>s \<in> set ?srcs. \<exists>d. source_Load example_lib example_world s = Inr d"
    by (simp add: EnvSource_Load_def MapSource_Load_def)
  have later: "\<forall>j d'. 0 < j \<and> j < length ?srcs \<and>
        source_Load example_lib example_world (?srcs ! j) = Inr d' \<longrightarrow> ''home'' \<notin> fst ` set d'"
  proof (intro allI impI)
    fix j d'
    assume a: "0 < j \<and> j < length ?srcs \<and> source_Load example_lib example_world (?srcs ! j) = Inr d'"
    then have "j = 1" by simp
    with a have "d' = [(''app_port'', VInt 3000)]" using example_map_load[of example_lib example_world] by simp
    then show "''home'' \<notin> fst ` set d'" by simp
  qed
  have absent: "\<forall>s \<in> set ?srcs. \<forall>d. source_Load example_lib example_world s = Inr d \<longrightarrow>
        ''port'' \<notin> fst ` set d"
    using example_env_load example_map_load[of example_lib example_world] by auto
  from Load_merges_in_registration_order[OF ok] show ?thesis
  proof (elim exE conjE)
    fix merged
    assume m: "Load_loop example_lib example_world ?srcs [] = Inr merged"
      and last: "\<forall>K i d. i < length ?srcs \<and> source_Load example_lib example_world (?srcs ! i) = Inr d \<and>
          K \<in> fst ` set d \<and>
          (\<forall>j d'. i < j \<and> j < length ?srcs \<and> source_Load example_lib example_world (?srcs ! j) = Inr d' \<longrightarrow>
             K \<notin> fst ` set d') \<longrightarrow>
          map_of merged K = map_of d K"
      and none: "\<forall>K. (\<forall>s \<in> set ?srcs. \<forall>d. source_Load example_lib example_world s = Inr d \<longrightarrow>
          K \<notin> fst ` set d) \<longrightarrow> map_of merged K = None"
    have p1: "1 < length ?srcs \<and>
        source_Load example_lib example_world (?srcs ! 1) = Inr [(''app_port'', VInt 3000)] \<and>
        ''app_port'' \<in> fst ` set [(''app_port'', VInt 3000 :: real gvalue)] \<and>
        (\<forall>j d'. 1 < j \<and> j < length ?srcs \<and>
            source_Load example_lib example_world (?srcs ! j) = Inr d' \<longrightarrow> ''app_port'' \<notin> fst ` set d')"
      using example_map_load[of example_lib example_world] by auto
    have 1: "map_of merged ''app_port'' = Some (VInt 3000)"
      using last[rule_format, OF p1] by simp
    have p2: "0 < length ?srcs \<and>
        source_Load example_lib example_world (?srcs ! 0) =
          Inr [(''app_port'', VInt 8080), (''home'', VString ''/root'')] \<and>
        ''home'' \<in> fst ` set [(''app_port'', VInt 8080), (''home'', VString ''/root'' :: real gvalue)] \<and>
        (\<forall>j d'. 0 < j \<and> j < length ?srcs \<and>
            source_Load example_lib example_world (?srcs ! j) = Inr d' \<longrightarrow> ''home'' \<notin> fst ` set d')"
      using example_env_load by (intro conjI later) simp_all
    have 2: "map_of merged ''home'' = Some (VString ''/root'')"
      using last[rule_format, OF p2] by simp
    have 3: "map_of merged ''port'' = None"
      by (rule none[THEN spec, THEN mp, OF absent])
    show ?thesis using m 1 2 3 by simp
  qed
qed

text \<open>
  Claim C5, as amended. When the prefix is not empty, or no top-level entry under the
  empty-string key holds a nested mapping, \<^verbatim>\<open>flattenMap\<close> produces a flat mapping whose
  key set is exactly the set of dot-joined root-to-leaf paths, behind the prefix when one
  is given; every entry is a leaf of the input that is no mapping, under its joined path
  and unchanged (where two leaves share a joined path, the key has the value of the
  leaf visited last); and an empty input gives an empty mapping.
\<close>

theorem flattenMap_dot_paths:
  assumes "prefix \<noteq> [] \<or> (\<forall>(k, v) \<in> set m. is_VMap v \<longrightarrow> k \<noteq> [])"
  shows "fst ` set (flattenMap m prefix) = fst ` set (flat_spec prefix m) \<and>
         set (flattenMap m prefix) \<subseteq> set (flat_spec prefix m) \<and>
         map_of (flattenMap m prefix) = map_of (rev (flat_spec prefix m)) \<and>
         (\<forall>(k, v) \<in> set (flattenMap m prefix). \<not> is_VMap v) \<and>
         flattenMap [] prefix = ([] :: 'f gomap)"
proof -
  have eq: "map_of (flattenMap m prefix) = map_of (rev (flat_spec prefix m))"
    by (simp add: flattenMap_def map_of_flattenMap_loop leaves_flat_spec[OF assms])
  have keys: "fst ` set (flattenMap m prefix) = fst ` set (flat_spec prefix m)"
    using arg_cong[OF eq, of dom] by (simp add: dom_map_of_conv_image_fst)
  have d: "distinct (map fst (flattenMap m prefix))"
    unfolding flattenMap_def by (rule distinct_flattenMap_loop) simp
  have sub: "set (flattenMap m prefix) \<subseteq> set (flat_spec prefix m)"
  proof
    fix e assume e: "e \<in> set (flattenMap m prefix)"
    obtain k v where kv: "e = (k, v)" by (cases e)
    have "map_of (flattenMap m prefix) k = Some v"
      using e kv d by simp
    then have "map_of (rev (flat_spec prefix m)) k = Some v" by (simp add: eq)
    then have "(k, v) \<in> set (rev (flat_spec prefix m))" by (rule map_of_SomeD)
    then show "e \<in> set (flat_spec prefix m)" using kv by simp
  qed
  have nm: "\<forall>(k, v) \<in> set (flattenMap m prefix). \<not> is_VMap v"
    unfolding flattenMap_def by (rule no_VMap_flattenMap_loop) simp
  show ?thesis using eq keys sub nm by (simp add: flattenMap_def)
qed

theorem flattenMap_dot_paths_witness:
  "fst ` set (flattenMap [(''a'', VMap [(''b'', VInt 1), (''c'', VSlice [VNil])]),
                          (''d'', VString ''x'' :: real gvalue)] ''app'') =
     {''app.a.b'', ''app.a.c'', ''app.d''} \<and>
   map_of (flattenMap [(''a'', VMap [(''b'', VInt 1), (''c'', VSlice [VNil])]),
                       (''d'', VString ''x'' :: real gvalue)] ''app'') ''app.a.c'' =
     Some (VSlice [VNil])"
proof -
  let ?m = "[(''a'', VMap [(''b'', VInt 1), (''c'', VSlice [VNil])]),
             (''d'', VString ''x'' :: real gvalue)]"
  have h: "''app'' \<noteq> [] \<or> (\<forall>(k, v) \<in> set ?m. is_VMap v \<longrightarrow> k \<noteq> [])" by simp
  have s: "flat_spec ''app'' ?m =
      [(''app.a.b'', VInt 1), (''app.a.c'', VSlice [VNil]), (''app.d'', VString ''x'')]"
    by (simp add: flat_spec_def leaf_paths_VMap leaf_paths_leaf dot_path_def)
  note t = flattenMap_dot_paths[OF h]
  have k: "fst ` set (flattenMap ?m ''app'') = fst ` set (flat_spec ''app'' ?m)"
    by (rule t[THEN conjunct1])
  have mo: "map_of (flattenMap ?m ''app'') = map_of (rev (flat_spec ''app'' ?m))"
    by (rule t[THEN conjunct2, THEN conjunct2, THEN conjunct1])
  show ?thesis unfolding k mo s by simp
qed

text \<open>
  The claim as it is written holds for every nested mapping. The code takes the empty
  string for "no prefix", also when it is the key of an enclosing entry: under a
  top-level key that is the empty string, the leaf \<^verbatim>\<open>a\<close> gets the key \<^verbatim>\<open>a\<close> and not the
  dot-joined path \<^verbatim>\<open>.a\<close>.
\<close>

theorem flattenMap_empty_key_counterexample:
  "fst ` set (flattenMap [([], VMap [(''a'', VInt 1 :: real gvalue)])] []) \<noteq>
   fst ` set (flat_spec [] [([], VMap [(''a'', VInt 1 :: real gvalue)])])"
  by (simp add: flattenMap_def flattenMap_loop_VMap flattenMap_loop_leaf join_key_def
      flat_spec_def leaf_paths_VMap leaf_paths_leaf dot_path_def)

text \<open>
  Claim C2. A field for which value resolution finds nothing and whose default annotation
  is empty goes through the loop body of \<^verbatim>\<open>applyToStruct\<close> without an error and without a
  store, whatever its validate expression says: after \<^verbatim>\<open>Load\<close> it holds the value it held
  before, the zero value in a fresh target, whether \<^verbatim>\<open>Load\<close> as a whole succeeds or another
  field makes it fail. When every field of the target is such a field, \<^verbatim>\<open>Load\<close> returns
  nil and changes nothing. Finding nothing is \<^verbatim>\<open>findValue\<close> returning nil, which it does
  when neither key matches the merged namespace.
\<close>

theorem unresolved_field_left_untouched:
  assumes "Load_loop lib w (sources l) [] = Inr merged"
    and "i < length flds"
    and "findValue merged (getFieldConfig (flds ! i)) = VNil"
    and "tag_default (flds ! i) = []"
  shows "applyField l lib merged (flds ! i) = Inr (flds ! i) \<and>
         (\<exists>flds' err. Load l lib w (PointerToStruct flds) = (PointerToStruct flds', err) \<and>
             length flds' = length flds \<and> flds' ! i = flds ! i \<and>
             Val (flds' ! i) = Val (flds ! i)) \<and>
         ((\<forall>f \<in> set flds. findValue merged (getFieldConfig f) = VNil \<and> tag_default f = []) \<longrightarrow>
             Load l lib w (PointerToStruct flds) = (PointerToStruct flds, None))"
proof -
  have a: "applyField l lib merged (flds ! i) = Inr (flds ! i)"
    using assms(3,4) by (rule applyField_unresolved)
  obtain flds' err where r: "applyToStruct_loop l lib merged flds = (flds', err)"
    by (cases "applyToStruct_loop l lib merged flds")
  have len: "length flds' = length flds"
    using applyToStruct_loop_length[of l lib merged flds] r by simp
  have keep: "flds' ! i = flds ! i"
    using applyToStruct_loop_keep[OF assms(2) a] r by simp
  have ld: "Load l lib w (PointerToStruct flds) = (PointerToStruct flds', err)"
    using assms(1) r by (simp add: Load_def applyToStruct_def)
  have b: "\<exists>flds' err. Load l lib w (PointerToStruct flds) = (PointerToStruct flds', err) \<and>
             length flds' = length flds \<and> flds' ! i = flds ! i \<and>
             Val (flds' ! i) = Val (flds ! i)"
    using ld len keep by simp
  have c: "(\<forall>f \<in> set flds. findValue merged (getFieldConfig f) = VNil \<and> tag_default f = []) \<longrightarrow>
             Load l lib w (PointerToStruct flds) = (PointerToStruct flds, None)"
  proof
    assume h: "\<forall>f \<in> set flds. findValue merged (getFieldConfig f) = VNil \<and> tag_default f = []"
    have "\<forall>f \<in> set flds. applyField l lib merged f = Inr f"
      using h by (simp add: applyField_unresolved)
    from applyToStruct_loop_all_keep[OF this]
    show "Load l lib w (PointerToStruct flds) = (PointerToStruct flds, None)"
      using assms(1) by (simp add: Load_def applyToStruct_def)
  qed
  show ?thesis by (intro conjI a b c)
qed

theorem unresolved_field_left_untouched_witness:
  "tag_validate example_Email = ''required,email'' \<and>
   applyField (AddMap [(''port'', VInt 3000)] (New example_lib)) example_lib [(''port'', VInt 3000)]
      example_Email = Inr example_Email \<and>
   (\<exists>flds' err. Load (AddMap [(''port'', VInt 3000)] (New example_lib)) example_lib example_world
        (PointerToStruct [example_Port, example_Email]) = (PointerToStruct flds', err) \<and>
      flds' ! 1 = example_Email) \<and>
   Load (AddMap [(''port'', VInt 3000)] (New example_lib)) example_lib example_world
        (PointerToStruct [example_Email]) = (PointerToStruct [example_Email], None)"
proof -
  let ?l = "AddMap [(''port'', VInt 3000)] (New example_lib)"
  have f: "findValue [(''port'', VInt 3000)] (getFieldConfig example_Email) = VNil"
    by (simp add: findValue_def getFieldConfig_def example_Email_def)
  have d: "tag_default example_Email = []" by (simp add: example_Email_def)
  have i1: "(1::nat) < length [example_Port, example_Email]" by simp
  have f1: "findValue [(''port'', VInt 3000)] (getFieldConfig ([example_Port, example_Email] ! 1)) = VNil"
    using f by simp
  have d1: "tag_default ([example_Port, example_Email] ! 1) = []" using d by simp
  note t1 = unresolved_field_left_untouched[of example_lib example_world ?l "[(''port'', VInt 3000)]" 1
      "[example_Port, example_Email]", OF example_Load_loop_port i1 f1 d1]
  have i0: "(0::nat) < length [example_Email]" by simp
  have f0: "findValue [(''port'', VInt 3000)] (getFieldConfig ([example_Email] ! 0)) = VNil"
    using f by simp
  have d0: "tag_default ([example_Email] ! 0) = []" using d by simp
  note t2 = unresolved_field_left_untouched[of example_lib example_world ?l "[(''port'', VInt 3000)]" 0
      "[example_Email]", OF example_Load_loop_port i0 f0 d0]
  have 1: "applyField ?l example_lib [(''port'', VInt 3000)] example_Email = Inr example_Email"
    using t1[THEN conjunct1] by simp
  have 2: "\<exists>flds' err. Load ?l example_lib example_world
        (PointerToStruct [example_Port, example_Email]) = (PointerToStruct flds', err) \<and>
      flds' ! 1 = example_Email"
    using t1[THEN conjunct2, THEN conjunct1] by auto
  have all0: "\<forall>f \<in> set [example_Email].
      findValue [(''port'', VInt 3000)] (getFieldConfig f) = VNil \<and> tag_default f = []"
    using f d by simp
  have 3: "Load ?l example_lib example_world (PointerToStruct [example_Email]) =
        (PointerToStruct [example_Email], None)"
    by (rule t2[THEN conjunct2, THEN conjunct2, THEN mp, OF all0])
  show ?thesis using 1 2 3 by (simp add: example_Email_def)
qed

text \<open>
  Claim C4. Every error ends \<^verbatim>\<open>Load\<close> at once and is the one error returned. When a source
  fails, the error is that source's error, wrapped, whatever sources are registered after
  it, and the target is untouched. When the loop body returns an error for a field, the
  error is that field's error, the fields before it keep the values the loop gave them,
  and the failing field and the fields after it are as they were. A validator's error
  comes back as it is and a failed coercion comes back wrapped with the field's name.
\<close>

theorem Load_aborts_on_first_error:
  "(Load_loop lib w pre [] = Inr m \<and> source_Load lib w s = Inl e \<and> sources l = pre @ s # post \<longrightarrow>
      Load l lib w config = (config, Some (WrapError ''failed to load from source: '' e))) \<and>
   (Load_loop lib w (sources l) [] = Inr merged \<and>
    list_all2 (\<lambda>f f'. applyField l lib merged f = Inr f') before before' \<and>
    applyField l lib merged fld = Inl err \<longrightarrow>
      Load l lib w (PointerToStruct (before @ fld # after)) =
        (PointerToStruct (before' @ fld # after), Some err)) \<and>
   (CanSet fld \<and> findValue merged (getFieldConfig fld) \<noteq> VNil \<and> tag_validate fld \<noteq> [] \<and>
    validateField l (Name fld) (findValue merged (getFieldConfig fld)) (tag_validate fld) = Some verr \<longrightarrow>
      applyField l lib merged fld = Inl verr) \<and>
   (CanSet fld \<and> findValue merged (getFieldConfig fld) \<noteq> VNil \<and>
    (tag_validate fld = [] \<or>
     validateField l (Name fld) (findValue merged (getFieldConfig fld)) (tag_validate fld) = None) \<and>
    setValue lib fld (findValue merged (getFieldConfig fld)) = Inl serr \<longrightarrow>
      applyField l lib merged fld =
        Inl (WrapError (''failed to set field '' @ Name fld @ '': '') serr)) \<and>
   (CanSet fld \<and> findValue merged (getFieldConfig fld) = VNil \<and> tag_default fld \<noteq> [] \<and>
    setValue lib fld (parseValue lib (tag_default fld)) = Inl serr \<longrightarrow>
      applyField l lib merged fld =
        Inl (WrapError (''failed to set default for field '' @ Name fld @ '': '') serr))"
proof -
  have 1: "Load_loop lib w pre [] = Inr m \<and> source_Load lib w s = Inl e \<and> sources l = pre @ s # post \<longrightarrow>
      Load l lib w config = (config, Some (WrapError ''failed to load from source: '' e))"
    using Load_source_error[of lib w pre m s e l post config] by blast
  have 2: "Load_loop lib w (sources l) [] = Inr merged \<and>
    list_all2 (\<lambda>f f'. applyField l lib merged f = Inr f') before before' \<and>
    applyField l lib merged fld = Inl err \<longrightarrow>
      Load l lib w (PointerToStruct (before @ fld # after)) =
        (PointerToStruct (before' @ fld # after), Some err)"
    using applyToStruct_loop_abort[of l lib merged before before' fld err after]
    by (simp add: Load_def applyToStruct_def)
  have 3: "CanSet fld \<and> findValue merged (getFieldConfig fld) \<noteq> VNil \<and> tag_validate fld \<noteq> [] \<and>
    validateField l (Name fld) (findValue merged (getFieldConfig fld)) (tag_validate fld) = Some verr \<longrightarrow>
      applyField l lib merged fld = Inl verr"
    by (simp add: applyField_def getFieldConfig_def Let_def)
  have 4: "CanSet fld \<and> findValue merged (getFieldConfig fld) \<noteq> VNil \<and>
    (tag_validate fld = [] \<or>
     validateField l (Name fld) (findValue merged (getFieldConfig fld)) (tag_validate fld) = None) \<and>
    setValue lib fld (findValue merged (getFieldConfig fld)) = Inl serr \<longrightarrow>
      applyField l lib merged fld =
        Inl (WrapError (''failed to set field '' @ Name fld @ '': '') serr)"
    by (auto simp: applyField_def getFieldConfig_def Let_def)
  have 5: "CanSet fld \<and> findValue merged (getFieldConfig fld) = VNil \<and> tag_default fld \<noteq> [] \<and>
    setValue lib fld (parseValue lib (tag_default fld)) = Inl serr \<longrightarrow>
      applyField l lib merged fld =
        Inl (WrapError (''failed to set default for field '' @ Name fld @ '': '') serr)"
    by (simp add: applyField_def getFieldConfig_def Let_def)
  show ?thesis by (intro conjI 1 2 3 4 5)
qed

theorem Load_aborts_on_first_error_witness:
  "Load (AddMap [(''port'', VInt 3000), (''email'', VString ''invalid-email'')] (New example_lib))
      example_lib example_world (PointerToStruct [example_Port, example_Email, example_Debug]) =
     (PointerToStruct [example_Port\<lparr>Val := IntVal 3000\<rparr>, example_Email, example_Debug],
      Some (ValidationError ''Email'' (VString ''invalid-email'') ''email'' ''invalid email format'')) \<and>
   Load (AddFile ''app.TOML'' (AddMap [(''port'', VInt 3000)] (New example_lib)))
      example_lib toml_world (PointerToStruct [example_Port]) =
     (PointerToStruct [example_Port],
      Some (WrapError ''failed to load from source: ''
              (ErrorString ''unsupported file format: toml'')))"
proof -
  let ?d = "[(''port'', VInt 3000), (''email'', VString ''invalid-email'' :: real gvalue)]"
  let ?l = "AddMap ?d (New example_lib)"
  have pre: "list_all2 (\<lambda>f f'. applyField ?l example_lib ?d f = Inr f')
      [example_Port] [example_Port\<lparr>Val := IntVal 3000\<rparr>]"
    by (simp add: example_apply_Port)
  have 1: "Load ?l example_lib example_world
      (PointerToStruct ([example_Port] @ example_Email # [example_Debug])) =
     (PointerToStruct ([example_Port\<lparr>Val := IntVal 3000\<rparr>] @ example_Email # [example_Debug]),
      Some (ValidationError ''Email'' (VString ''invalid-email'') ''email'' ''invalid email format''))"
    using Load_aborts_on_first_error[of example_lib example_world _ _ _ _ ?l _ _ ?d
        "[example_Port]" "[example_Port\<lparr>Val := IntVal 3000\<rparr>]" example_Email _ "[example_Debug]"]
      example_Load_loop_port_email[of example_lib example_world] pre example_apply_Email
    by simp
  let ?l2 = "AddFile ''app.TOML'' (AddMap [(''port'', VInt 3000)] (New example_lib))"
  have src: "sources ?l2 = [MapSource [(''port'', VInt 3000)]] @ FileSource ''app.TOML'' # []"
    by (simp add: AddFile_def AddMap_def New_def)
  have lp: "Load_loop example_lib toml_world [MapSource [(''port'', VInt 3000)]] [] =
      Inr [(''port'', VInt 3000)]"
    using example_Load_loop_port[of example_lib toml_world] by (simp add: AddMap_def New_def)
  have 2: "Load ?l2 example_lib toml_world (PointerToStruct [example_Port]) =
     (PointerToStruct [example_Port],
      Some (WrapError ''failed to load from source: ''
              (ErrorString ''unsupported file format: toml'')))"
    using Load_aborts_on_first_error[of example_lib toml_world "[MapSource [(''port'', VInt 3000)]]"
        "[(''port'', VInt 3000)]" "FileSource ''app.TOML''" "ErrorString ''unsupported file format: toml''"
        ?l2 "[]" "PointerToStruct [example_Port]"]
      lp example_toml_fails[of example_lib] src
    by simp
  show ?thesis using 1 2 by simp
qed

text \<open>
  Claim C10. For a target that is not a non-nil pointer to a struct, \<^verbatim>\<open>Load\<close> returns the
  error \<^verbatim>\<open>config must be a pointer to struct\<close> and leaves the target as it was, provided
  every source has loaded: the sources are loaded and merged first, and when one of them
  fails \<^verbatim>\<open>Load\<close> returns that source's wrapped error instead.
\<close>

theorem Load_rejects_non_struct_pointer:
  assumes "config \<in> {NotPointer, NilPointer, PointerToNonStruct}"
  shows "((\<forall>s \<in> set (sources l). \<exists>d. source_Load lib w s = Inr d) \<longrightarrow>
            Load l lib w config =
              (config, Some (ErrorString ''config must be a pointer to struct''))) \<and>
         (Load_loop lib w pre [] = Inr m \<and> source_Load lib w s = Inl e \<and>
          sources l = pre @ s # post \<longrightarrow>
            Load l lib w config =
              (config, Some (WrapError ''failed to load from source: '' e)))"
proof -
  have 1: "(\<forall>s \<in> set (sources l). \<exists>d. source_Load lib w s = Inr d) \<longrightarrow>
            Load l lib w config =
              (config, Some (ErrorString ''config must be a pointer to struct''))"
  proof
    assume "\<forall>s \<in> set (sources l). \<exists>d. source_Load lib w s = Inr d"
    from Load_loop_total[OF this, of "[]"]
    obtain merged where "Load_loop lib w (sources l) [] = Inr merged" by blast
    then show "Load l lib w config =
              (config, Some (ErrorString ''config must be a pointer to struct''))"
      using assms by (auto simp: Load_def applyToStruct_def)
  qed
  have 2: "Load_loop lib w pre [] = Inr m \<and> source_Load lib w s = Inl e \<and>
          sources l = pre @ s # post \<longrightarrow>
            Load l lib w config =
              (config, Some (WrapError ''failed to load from source: '' e))"
    using Load_source_error[of lib w pre m s e l post config] by blast
  show ?thesis by (intro conjI 1 2)
qed

theorem Load_rejects_non_struct_pointer_witness:
  "Load (AddMap [(''port'', VInt 3000)] (New example_lib)) example_lib example_world NilPointer =
     (NilPointer, Some (ErrorString ''config must be a pointer to struct'')) \<and>
   Load (AddFile ''app.TOML'' (AddMap [(''port'', VInt 3000)] (New example_lib)))
      example_lib toml_world NilPointer =
     (NilPointer,
      Some (WrapError ''failed to load from source: ''
              (ErrorString ''unsupported file format: toml'')))"
proof -
  let ?l = "AddMap [(''port'', VInt 3000)] (New example_lib)"
  let ?l2 = "AddFile ''app.TOML'' ?l"
  have c: "(NilPointer :: real config) \<in> {NotPointer, NilPointer, PointerToNonStruct}" by simp
  have ok: "\<forall>s \<in> set (sources ?l). \<exists>d. source_Load example_lib example_world s = Inr d"
    by (simp add: AddMap_def New_def MapSource_Load_def)
  have src: "sources ?l2 = [MapSource [(''port'', VInt 3000)]] @ FileSource ''app.TOML'' # []"
    by (simp add: AddFile_def AddMap_def New_def)
  have lp: "Load_loop example_lib toml_world [MapSource [(''port'', VInt 3000)]] [] =
      Inr [(''port'', VInt 3000)]"
    using example_Load_loop_port[of example_lib toml_world] by (simp add: AddMap_def New_def)
  have 1: "Load ?l example_lib example_world NilPointer =
     (NilPointer, Some (ErrorString ''config must be a pointer to struct''))"
    using Load_rejects_non_struct_pointer[OF c, of ?l example_lib example_world] ok by blast
  have 2: "Load ?l2 example_lib toml_world NilPointer =
     (NilPointer,
      Some (WrapError ''failed to load from source: ''
              (ErrorString ''unsupported file format: toml'')))"
    using Load_rejects_non_struct_pointer[OF c, of ?l2 example_lib toml_world
        "[MapSource [(''port'', VInt 3000)]]" "[(''port'', VInt 3000)]" "FileSource ''app.TOML''"
        "ErrorString ''unsupported file format: toml''" "[]"]
      lp example_toml_fails[of example_lib] src
    by simp
  show ?thesis using 1 2 by simp
qed

end
